theory Spec2Isabelle
  imports Complex_Main
begin

section \<open>Tensors\<close>

text \<open>
  A torch tensor is a shape together with its elements in row-major order.  In the layers
  and in the dueling head floating point numbers are modelled by the reals, and the
  operations are exact.  Two places of the source depend on what the reals do not have and
  are modelled with it: the arg-max line of \<open>forward\<close> rounds to binary32 (\<open>f32\<close>), and the
  auxiliary loss computes with the infinities and NaN (\<open>fval\<close>).  \<open>size()\<close> is \<open>sizes\<close> and
  \<open>dim()\<close> is its length.
\<close>

record 'a tensor =
  sizes :: "nat list"
  vals :: "'a list"

definition dim :: "'a tensor \<Rightarrow> nat" where
  "dim t = length (sizes t)"

definition wf_tensor :: "'a tensor \<Rightarrow> bool" where
  "wf_tensor t \<longleftrightarrow> length (vals t) = prod_list (sizes t)"

text \<open>The \<open>n\<close>-th row of width \<open>d\<close> of a row-major element list.\<close>

definition row :: "nat \<Rightarrow> 'a list \<Rightarrow> nat \<Rightarrow> 'a list" where
  "row d xs n = take d (drop (n * d) xs)"

text \<open>Every raise site of the source is one constructor.\<close>

datatype py_error =
    AssertSizeEq      \<comment> \<open>\<open>assert a.size() == legal_move.size()\<close> in \<open>duel\<close>\<close>
  | AssertDim3        \<comment> \<open>\<open>assert legal_move.dim() == 3\<close> in \<open>duel\<close>\<close>
  | AssertEntryDim    \<comment> \<open>\<open>assert priv_s.dim() == 3 or priv_s.dim() == 2\<close> in \<open>forward\<close>\<close>
  | AssertQSize       \<comment> \<open>\<open>assert q.size() == legal_move.size()\<close> in \<open>forward\<close>\<close>
  | ShapeError        \<comment> \<open>a torch RuntimeError: shapes that do not fit an operation\<close>
  | IndexError        \<comment> \<open>a torch index out of range\<close>
  | KeyError          \<comment> \<open>a missing dictionary key\<close>
  | AssertXentSize    \<comment> \<open>\<open>assert xent.size() == seq_len.size()\<close> in \<open>cross_entropy\<close>\<close>
  | AssertInDim       \<comment> \<open>\<open>assert in_dim == 783\<close> in the constructors\<close>
  | AssertActDim      \<comment> \<open>\<open>assert priv_s.dim() == 2\<close> in \<open>act\<close>\<close>
  | AssertHidDim      \<comment> \<open>\<open>assert hid["h0"].dim() == 4\<close> in \<open>act\<close>\<close>

section \<open>The dueling head\<close>

text \<open>
  \<^verbatim>\<open>
  def duel(v, a, legal_move):
      assert a.size() == legal_move.size()
      assert legal_move.dim() == 3  # seq, batch, dim
      legal_a = a * legal_move
      q = v + legal_a - legal_a.mean(2, keepdim=True)
      return q
  \<close>
  \<open>v\<close> is the output of a linear layer of width one, of shape \<open>[seq, batch, 1]\<close>; it is
  broadcast along the action axis.  Any other shape of \<open>v\<close> is a \<open>ShapeError\<close> here (torch
  would broadcast some of them).  \<open>mean(2)\<close> divides the sum of a row by its width.
\<close>

definition mean2 :: "nat \<Rightarrow> real list \<Rightarrow> nat \<Rightarrow> real" where
  "mean2 d xs n = sum_list (row d xs n) / real d"

definition duel :: "real tensor \<Rightarrow> real tensor \<Rightarrow> real tensor \<Rightarrow> py_error + real tensor" where
  "duel v a legal_move =
     (if sizes a \<noteq> sizes legal_move then Inl AssertSizeEq
      else if dim legal_move \<noteq> 3 then Inl AssertDim3
      else
        let d = sizes a ! 2;
            n = sizes a ! 0 * sizes a ! 1;
            legal_a = map2 (*) (vals a) (vals legal_move)
        in if sizes v \<noteq> [sizes a ! 0, sizes a ! 1, 1] then Inl ShapeError
           else Inr \<lparr>sizes = sizes a,
                     vals = map (\<lambda>j. vals v ! (j div d) + legal_a ! j - mean2 d legal_a (j div d))
                              [0..<n * d]\<rparr>)"

text \<open>
  The claim's wording, for comparison: the mean taken over the legal actions only, the
  denominator being the number of legal actions of the row (the sum of the 0/1 mask).
\<close>

definition duel_legal_mean :: "real tensor \<Rightarrow> real tensor \<Rightarrow> real tensor \<Rightarrow> real tensor" where
  "duel_legal_mean v a legal_move =
     (let d = sizes a ! 2;
          n = sizes a ! 0 * sizes a ! 1;
          legal_a = map2 (*) (vals a) (vals legal_move)
      in \<lparr>sizes = sizes a,
          vals = map (\<lambda>j. vals v ! (j div d) + legal_a ! j
                       - sum_list (row d legal_a (j div d))
                         / sum_list (row d (vals legal_move) (j div d)))
                   [0..<n * d]\<rparr>)"

section \<open>Layers\<close>

definition ebind :: "'e + 'a \<Rightarrow> ('a \<Rightarrow> 'e + 'b) \<Rightarrow> 'e + 'b" where
  "ebind m f = (case m of Inl e \<Rightarrow> Inl e | Inr x \<Rightarrow> f x)"

text \<open>
  \<open>nn.Linear(in, out)\<close> maps every row \<open>x\<close> of width \<open>in\<close> to \<open>x W\<^sup>T + b\<close> and keeps
  the leading dimensions; a last dimension other than \<open>in\<close> is an error.
\<close>

record linear =
  in_features :: nat
  out_features :: nat
  weight :: "real list list"
  bias :: "real list"

definition dot :: "real list \<Rightarrow> real list \<Rightarrow> real" where
  "dot x y = sum_list (map2 (*) x y)"

definition linear_row :: "linear \<Rightarrow> real list \<Rightarrow> real list" where
  "linear_row L x = map (\<lambda>k. dot x (weight L ! k) + bias L ! k) [0..<out_features L]"

definition Linear :: "linear \<Rightarrow> real tensor \<Rightarrow> py_error + real tensor" where
  "Linear L t =
     (if sizes t = [] \<or> last (sizes t) \<noteq> in_features L then Inl ShapeError
      else Inr \<lparr>sizes = butlast (sizes t) @ [out_features L],
                vals = concat (map (\<lambda>n. linear_row L (row (in_features L) (vals t) n))
                                 [0..<prod_list (butlast (sizes t))])\<rparr>)"

definition ReLU :: "real tensor \<Rightarrow> real tensor" where
  "ReLU t = \<lparr>sizes = sizes t, vals = map (max 0) (vals t)\<rparr>"

text \<open>\<open>nn.Sequential(Linear, ReLU, Linear, ReLU, ...)\<close>: every linear layer is followed by a ReLU.\<close>

fun Sequential :: "linear list \<Rightarrow> real tensor \<Rightarrow> py_error + real tensor" where
  "Sequential [] t = Inr t"
| "Sequential (L # Ls) t = ebind (Linear L t) (\<lambda>y. Sequential Ls (ReLU y))"

definition unsqueeze0 :: "'a tensor \<Rightarrow> 'a tensor" where
  "unsqueeze0 t = \<lparr>sizes = 1 # sizes t, vals = vals t\<rparr>"

text \<open>\<open>squeeze(0)\<close> removes the first dimension when it is one and does nothing otherwise.\<close>

definition squeeze0 :: "'a tensor \<Rightarrow> 'a tensor" where
  "squeeze0 t = (case sizes t of [] \<Rightarrow> t
                 | s # ss \<Rightarrow> if s = 1 then \<lparr>sizes = ss, vals = vals t\<rparr> else t)"

section \<open>Rounding to binary32\<close>

text \<open>
  The tensors hold binary32 numbers, torch's default: 24 significant bits, every number a
  multiple of \<open>2\<^sup>-\<^sup>1\<^sup>4\<^sup>9\<close>.  \<open>f32\<close> rounds a real to the nearest of them, a tie to the even
  significand.  \<open>s\<close> is the magnitude in units of \<open>2\<^sup>-\<^sup>1\<^sup>4\<^sup>9\<close> and \<open>bits\<close> the number of binary
  digits of its integer part; up to 24 digits the numbers are one unit apart, and with
  every further digit the distance doubles.  The exponent has no upper bound here:
  magnitudes from \<open>2\<^sup>1\<^sup>2\<^sup>8\<close> on, where binary32 has its infinities, are outside the model.
\<close>

fun bits :: "nat \<Rightarrow> nat" where
  "bits n = (if n = 0 then 0 else Suc (bits (n div 2)))"

declare bits.simps [simp del]

definition round_even :: "real \<Rightarrow> int" where
  "round_even r =
     (let f = \<lfloor>r\<rfloor>; d = r - of_int f
      in if d < 1 / 2 then f else if 1 / 2 < d then f + 1 else if even f then f else f + 1)"

definition f32 :: "real \<Rightarrow> real" where
  "f32 x =
     (let s = \<bar>x\<bar> * 2 ^ 149;
          b = bits (nat \<lfloor>s\<rfloor>);
          u = 2 ^ (b - 24)
      in sgn x * (of_int (round_even (s / u)) * u / 2 ^ 149))"

section \<open>The shared end of every forward\<close>

text \<open>
  \<^verbatim>\<open>
  qa = q.gather(2, action.unsqueeze(2)).squeeze(2)
  assert q.size() == legal_move.size()
  legal_q = (1 + q - q.min()) * legal_move
  greedy_action = legal_q.argmax(2).detach()
  \<close>
  These lines close \<open>forward\<close> in all five network classes (\<open>FFWDNet\<close> writes the axis
  as \<open>-1\<close>, which is axis 2 of the three-dimensional \<open>q\<close> that \<open>duel\<close> returns).
  \<open>gather\<close> wants an index of the rank of \<open>q\<close>, no larger than \<open>q\<close> on the other axes, and
  every index below the width.  \<open>q.min()\<close> is the minimum over the whole tensor and fails
  on an empty one.  \<open>argmax(2)\<close> needs a third axis and returns the first position of the
  maximum of each row.  The three operations of \<open>(1 + q - q.min()) * legal_move\<close> round
  to binary32 one after the other; \<open>q\<close> and the mask hold binary32 numbers already.
\<close>

definition gather2 :: "real tensor \<Rightarrow> nat tensor \<Rightarrow> py_error + real tensor" where
  "gather2 q action =
     (case sizes q of
        [s, b, d] \<Rightarrow>
          (case sizes action of
             [s', b'] \<Rightarrow>
               if \<not> (s' \<le> s \<and> b' \<le> b) then Inl ShapeError
               else if \<not> list_all (\<lambda>i. i < d) (vals action) then Inl IndexError
               else Inr \<lparr>sizes = [s', b'],
                         vals = map (\<lambda>n. vals q ! (((n div b') * b + n mod b') * d + vals action ! n))
                                  [0..<s' * b']\<rparr>
           | _ \<Rightarrow> Inl ShapeError)
      | _ \<Rightarrow> Inl ShapeError)"

fun argmax_from :: "nat \<Rightarrow> real \<Rightarrow> nat \<Rightarrow> real list \<Rightarrow> nat" where
  "argmax_from bi bv i [] = bi"
| "argmax_from bi bv i (x # xs) =
     (if bv < x then argmax_from i x (Suc i) xs else argmax_from bi bv (Suc i) xs)"

definition argmax_list :: "real list \<Rightarrow> nat" where
  "argmax_list xs = (case xs of [] \<Rightarrow> 0 | x # r \<Rightarrow> argmax_from 0 x 1 r)"

definition greedy_head :: "real tensor \<Rightarrow> real tensor \<Rightarrow> py_error + nat tensor" where
  "greedy_head q legal_move =
     (if sizes q \<noteq> sizes legal_move then Inl AssertQSize
      else if vals q = [] then Inl ShapeError
      else if dim q \<noteq> 3 then Inl IndexError
      else
        let m = min_list (vals q);
            legal_q = map2 (\<lambda>x l. f32 (f32 (f32 (1 + x) - m) * l)) (vals q) (vals legal_move);
            d = sizes q ! 2
        in Inr \<lparr>sizes = [sizes q ! 0, sizes q ! 1],
                  vals = map (\<lambda>n. argmax_list (row d legal_q n))
                           [0..<sizes q ! 0 * sizes q ! 1]\<rparr>)"

section \<open>FFWDNet and LSTMNet\<close>

text \<open>The hidden state is a dictionary from names to tensors.\<close>

type_synonym hid = "(string \<times> real tensor) list"

definition lookup :: "hid \<Rightarrow> string \<Rightarrow> py_error + real tensor" where
  "lookup h k = (case map_of h k of None \<Rightarrow> Inl KeyError | Some t \<Rightarrow> Inr t)"

record FFWDNet =
  ffwd_net :: "linear list"
  ffwd_fc_v :: linear
  ffwd_fc_a :: linear

text \<open>
  \<^verbatim>\<open>
  def forward(self, priv_s, publ_s, legal_move, action, hid):
      assert priv_s.dim() == 3 or priv_s.dim() == 2
      o = self.net(priv_s)
      a = self.fc_a(o)
      v = self.fc_v(o)
      q = duel(v, a, legal_move)
      qa = q.gather(-1, action.unsqueeze(-1)).squeeze(-1)
      assert q.size() == legal_move.size()
      legal_q = (1 + q - q.min()) * legal_move
      greedy_action = legal_q.argmax(-1).detach()
      return qa, greedy_action, q, o
  \<close>
\<close>

definition FFWDNet_forward ::
  "FFWDNet \<Rightarrow> real tensor \<Rightarrow> real tensor \<Rightarrow> real tensor \<Rightarrow> nat tensor \<Rightarrow> hid
     \<Rightarrow> py_error + (real tensor \<times> nat tensor \<times> real tensor \<times> real tensor)" where
  "FFWDNet_forward m priv_s publ_s legal_move action hid =
     (if \<not> (dim priv_s = 3 \<or> dim priv_s = 2) then Inl AssertEntryDim
      else
        ebind (Sequential (ffwd_net m) priv_s) (\<lambda>out.
        ebind (Linear (ffwd_fc_a m) out) (\<lambda>a.
        ebind (Linear (ffwd_fc_v m) out) (\<lambda>v.
        ebind (duel v a legal_move) (\<lambda>q.
        ebind (gather2 q action) (\<lambda>qa.
        ebind (greedy_head q legal_move) (\<lambda>greedy_action.
        Inr (qa, greedy_action, q, out))))))))"

text \<open>
  \<open>nn.LSTM\<close> is library code: it is a parameter of the model, a function from the input
  sequence and the optional initial state to the output sequence (or an error).
\<close>

record LSTMNet =
  lstm_net :: "linear list"
  lstm_lstm :: "real tensor \<Rightarrow> (real tensor \<times> real tensor) option \<Rightarrow> py_error + real tensor"
  lstm_fc_v :: linear
  lstm_fc_a :: linear

text \<open>
  \<^verbatim>\<open>
  def forward(self, priv_s, publ_s, legal_move, action, hid):
      assert priv_s.dim() == 3 or priv_s.dim() == 2
      one_step = False
      if priv_s.dim() == 2:
          priv_s = priv_s.unsqueeze(0)
          publ_s = publ_s.unsqueeze(0)
          legal_move = legal_move.unsqueeze(0)
          action = action.unsqueeze(0)
          one_step = True
      x = self.net(priv_s)
      if len(hid) == 0:
          o, _ = self.lstm(x)
      else:
          o, _ = self.lstm(x, (hid["h0"], hid["c0"]))
      a = self.fc_a(o)
      v = self.fc_v(o)
      q = duel(v, a, legal_move)
      qa = q.gather(2, action.unsqueeze(2)).squeeze(2)
      assert q.size() == legal_move.size()
      legal_q = (1 + q - q.min()) * legal_move
      greedy_action = legal_q.argmax(2).detach()
      if one_step:
          qa = qa.squeeze(0)
          greedy_action = greedy_action.squeeze(0)
          o = o.squeeze(0)
          q = q.squeeze(0)
      return qa, greedy_action, q, o
  \<close>
\<close>

definition run_lstm ::
  "(real tensor \<Rightarrow> (real tensor \<times> real tensor) option \<Rightarrow> py_error + real tensor)
     \<Rightarrow> real tensor \<Rightarrow> hid \<Rightarrow> py_error + real tensor" where
  "run_lstm f x hid =
     (if length hid = 0 then f x None
      else ebind (lookup hid ''h0'') (\<lambda>h0.
           ebind (lookup hid ''c0'') (\<lambda>c0. f x (Some (h0, c0)))))"

definition LSTMNet_forward ::
  "LSTMNet \<Rightarrow> real tensor \<Rightarrow> real tensor \<Rightarrow> real tensor \<Rightarrow> nat tensor \<Rightarrow> hid
     \<Rightarrow> py_error + (real tensor \<times> nat tensor \<times> real tensor \<times> real tensor)" where
  "LSTMNet_forward m priv_s publ_s legal_move action hid =
     (if \<not> (dim priv_s = 3 \<or> dim priv_s = 2) then Inl AssertEntryDim
      else
        let one_step = (dim priv_s = 2);
            priv_s1 = (if one_step then unsqueeze0 priv_s else priv_s);
            legal_move1 = (if one_step then unsqueeze0 legal_move else legal_move);
            action1 = (if one_step then unsqueeze0 action else action)
        in
        ebind (Sequential (lstm_net m) priv_s1) (\<lambda>x.
        ebind (run_lstm (lstm_lstm m) x hid) (\<lambda>out.
        ebind (Linear (lstm_fc_a m) out) (\<lambda>a.
        ebind (Linear (lstm_fc_v m) out) (\<lambda>v.
        ebind (duel v a legal_move1) (\<lambda>q.
        ebind (gather2 q action1) (\<lambda>qa.
        ebind (greedy_head q legal_move1) (\<lambda>greedy_action.
        if one_step
        then Inr (squeeze0 qa, squeeze0 greedy_action, squeeze0 q, squeeze0 out)
        else Inr (qa, greedy_action, q, out)))))))))"

section \<open>The groups of colour permutations\<close>

text \<open>
  \<^verbatim>\<open>
  self.group_type = "cyclic"
  colours = [0, 1, 2, 3, 4]
  if self.group_type == "cyclic":
      self.symmetries = torch.tensor([[0,1,2,3,4],[4,0,1,2,3],[3,4,0,1,2],[2,3,4,0,1],[1,2,3,4,0]])
  elif self.group_type == "dihedral":
      self.symmetries = torch.tensor([[0,1,2,3,4], [1,2,3,4,0], ..., [1,0,4,3,2]])
  else: # symmetric group
      self.symmetries = torch.tensor(list(permutations(colours)))
  self.num_symmetries = len(self.symmetries)
  self.inv_symmetries = torch.argsort(self.symmetries)
  \<close>
  \<open>itertools.permutations\<close> lists the permutations in the lexicographic order of the
  positions; \<open>torch.argsort\<close> of a permutation is its inverse.
\<close>

definition colours :: "nat list" where
  "colours = [0, 1, 2, 3, 4]"

fun perms_n :: "nat \<Rightarrow> 'a list \<Rightarrow> 'a list list" where
  "perms_n 0 xs = [[]]"
| "perms_n (Suc n) xs =
     concat (map (\<lambda>i. map ((#) (xs ! i)) (perms_n n (take i xs @ drop (Suc i) xs))) [0..<length xs])"

definition permutations :: "'a list \<Rightarrow> 'a list list" where
  "permutations xs = perms_n (length xs) xs"

definition argsort :: "nat list \<Rightarrow> nat list" where
  "argsort xs = map snd (sort_key fst (zip xs [0..<length xs]))"

definition cyclic_symmetries :: "nat list list" where
  "cyclic_symmetries =
     [[0, 1, 2, 3, 4], [4, 0, 1, 2, 3], [3, 4, 0, 1, 2], [2, 3, 4, 0, 1], [1, 2, 3, 4, 0]]"

definition dihedral_symmetries :: "nat list list" where
  "dihedral_symmetries =
     [[0, 1, 2, 3, 4], [1, 2, 3, 4, 0], [2, 3, 4, 0, 1], [3, 4, 0, 1, 2], [4, 0, 1, 2, 3],
      [0, 4, 3, 2, 1], [4, 3, 2, 1, 0], [3, 2, 1, 0, 4], [2, 1, 0, 4, 3], [1, 0, 4, 3, 2]]"

definition select_symmetries :: "string \<Rightarrow> nat list list" where
  "select_symmetries group_type =
     (if group_type = ''cyclic'' then cyclic_symmetries
      else if group_type = ''dihedral'' then dihedral_symmetries
      else permutations colours)"

record group_table =
  symmetries :: "nat list list"
  num_symmetries :: nat
  inv_symmetries :: "nat list list"

definition group_setup :: "string \<Rightarrow> group_table" where
  "group_setup group_type =
     (let symms = select_symmetries group_type
      in \<lparr>symmetries = symms, num_symmetries = length symms, inv_symmetries = map argsort symms\<rparr>)"

text \<open>The constructors of both equivariant classes fix the group type.\<close>

definition group_type :: string where
  "group_type = ''cyclic''"

section \<open>The permutation-operator builder\<close>

text \<open>
  A matrix under construction is the list of its rows.  \<open>x[a:b] = vs\<close> replaces a slice by
  as many values; \<open>perm[idx]\<close> gathers rows and fails on an index out of range;
  \<open>perm[a:b] = perm[idx]\<close> gathers first and assigns then.
\<close>

definition assign_slice :: "'a list \<Rightarrow> nat \<Rightarrow> nat \<Rightarrow> 'a list \<Rightarrow> py_error + 'a list" where
  "assign_slice xs a b vs =
     (if a \<le> b \<and> b \<le> length xs \<and> length vs = b - a then Inr (take a xs @ vs @ drop b xs)
      else Inl ShapeError)"

definition index_rows :: "'a list \<Rightarrow> nat list \<Rightarrow> py_error + 'a list" where
  "index_rows xs idx =
     (if list_all (\<lambda>k. k < length xs) idx then Inr (map ((!) xs) idx) else Inl IndexError)"

definition assign_rows :: "'a list \<Rightarrow> nat \<Rightarrow> nat \<Rightarrow> nat list \<Rightarrow> py_error + 'a list" where
  "assign_rows xs a b idx = ebind (index_rows xs idx) (assign_slice xs a b)"

text \<open>
  \<^verbatim>\<open>
  card_perm = torch.zeros(25)
  for i,idx in enumerate(symm):
      temp = torch.tensor([0,1,2,3,4], dtype=torch.long)
      temp = 5*i+temp
      card_perm[5*idx:5*(idx+1)] = temp
  hand_perm = torch.zeros(125, dtype=torch.long)
  for i in range(5):
      hand_perm[25*i:25*(i+1)] = card_perm + 25*i
  discards_perm = torch.zeros(50, dtype=torch.long)
  for i,idx in enumerate(symm):
      temp = torch.tensor([203,204,205,206,207,208,209,210,211,212], dtype=torch.long)
      temp = 10*i+temp
      discards_perm[10*idx:10*(idx+1)] = temp
  \<close>
\<close>

definition card_perm :: "nat list \<Rightarrow> py_error + nat list" where
  "card_perm symm =
     fold (\<lambda>(i, idx) acc. ebind acc (\<lambda>cp.
             assign_slice cp (5 * idx) (5 * (idx + 1)) (map (\<lambda>t. 5 * i + t) [0, 1, 2, 3, 4])))
          (enumerate 0 symm) (Inr (replicate 25 0))"

definition hand_perm :: "nat list \<Rightarrow> py_error + nat list" where
  "hand_perm cp =
     fold (\<lambda>i acc. ebind acc (\<lambda>hp.
             assign_slice hp (25 * i) (25 * (i + 1)) (map (\<lambda>c. c + 25 * i) cp)))
          [0..<5] (Inr (replicate 125 0))"

definition discards_perm :: "nat list \<Rightarrow> py_error + nat list" where
  "discards_perm symm =
     fold (\<lambda>(i, idx) acc. ebind acc (\<lambda>dp.
             assign_slice dp (10 * idx) (10 * (idx + 1))
               (map (\<lambda>t. 10 * i + t) [203, 204, 205, 206, 207, 208, 209, 210, 211, 212])))
          (enumerate 0 symm) (Inr (replicate 50 0))"

text \<open>
  \<^verbatim>\<open>
  perm[0:125] = perm[hand_perm]
  fireworks_perm = card_perm + 167
  perm[167:192] = perm[fireworks_perm.long()]
  perm[203:253] = perm[discards_perm]
  which_colour_perm = torch.tensor([261,261,261,261,261], dtype=torch.long) + symm
  perm[261:266] = perm[which_colour_perm]
  perm[281:306] = perm[card_perm.long() + 281]
  for i in range(10):
      perm[308+35*i:333+35*i] = perm[card_perm.long() + 308+35*i]
      directly_revealed_colour_perm = torch.tensor([333,333,333,333,333], dtype=torch.long) + 35*i + symm
      perm[333+35*i:338+35*i] = perm[directly_revealed_colour_perm]
  if (sad):        # net.py: if (self.priv_in_dim == 713):
      which_colour_perm = torch.tensor([666,666,666,666,666], dtype=torch.long) + symm
      perm[666:671] = perm[which_colour_perm]
      perm[686:711] = perm[card_perm.long() + 686]
  \<close>
  The same lines stand in \<open>EquivariantProjection.__init__\<close> and in
  \<open>EquivariantLSTMNet.__init__\<close>; the builder is polymorphic in the rows, so that it runs
  on the rows of the identity matrix and on the row numbers alike.
\<close>

definition V0_step :: "nat list \<Rightarrow> nat list \<Rightarrow> nat \<Rightarrow> 'a list \<Rightarrow> py_error + 'a list" where
  "V0_step symm cp i perm =
     ebind (assign_rows perm (308 + 35 * i) (333 + 35 * i) (map (\<lambda>c. c + 308 + 35 * i) cp)) (\<lambda>perm.
     assign_rows perm (333 + 35 * i) (338 + 35 * i) (map (\<lambda>s. 333 + 35 * i + s) symm))"

definition build_input_perm :: "bool \<Rightarrow> nat list \<Rightarrow> 'a list \<Rightarrow> py_error + 'a list" where
  "build_input_perm sad symm perm =
     ebind (card_perm symm) (\<lambda>cp.
     ebind (hand_perm cp) (\<lambda>hp.
     ebind (assign_rows perm 0 125 hp) (\<lambda>perm.
     ebind (assign_rows perm 167 192 (map (\<lambda>c. c + 167) cp)) (\<lambda>perm.
     ebind (discards_perm symm) (\<lambda>dp.
     ebind (assign_rows perm 203 253 dp) (\<lambda>perm.
     ebind (assign_rows perm 261 266 (map (\<lambda>s. 261 + s) symm)) (\<lambda>perm.
     ebind (assign_rows perm 281 306 (map (\<lambda>c. c + 281) cp)) (\<lambda>perm.
     ebind (fold (\<lambda>i acc. ebind acc (V0_step symm cp i)) [0..<10] (Inr perm)) (\<lambda>perm.
     if sad
     then ebind (assign_rows perm 666 671 (map (\<lambda>s. 666 + s) symm)) (\<lambda>perm.
          assign_rows perm 686 711 (map (\<lambda>c. c + 686) cp))
     else Inr perm)))))))))"

text \<open>
  \<^verbatim>\<open>
  perm = torch.eye(21)
  temp = torch.tensor([10,10,10,10,10], dtype=torch.long)
  perm[10:15] = perm[temp + symm]
  \<close>
\<close>

definition build_output_perm :: "nat list \<Rightarrow> 'a list \<Rightarrow> py_error + 'a list" where
  "build_output_perm symm perm = assign_rows perm 10 15 (map (\<lambda>s. 10 + s) symm)"

definition unit_row :: "nat \<Rightarrow> nat \<Rightarrow> real list" where
  "unit_row n i = map (\<lambda>j. if i = j then 1 else 0) [0..<n]"

definition eye :: "nat \<Rightarrow> real list list" where
  "eye n = map (unit_row n) [0..<n]"

text \<open>The operator of one colour permutation: the builder run on the identity matrix.\<close>

definition input_operator :: "bool \<Rightarrow> nat \<Rightarrow> nat list \<Rightarrow> py_error + real list list" where
  "input_operator sad n symm = build_input_perm sad symm (eye n)"

definition output_operator :: "nat \<Rightarrow> nat list \<Rightarrow> py_error + real list list" where
  "output_operator n symm = build_output_perm symm (eye n)"

text \<open>Matrix product of two matrices given by their rows, and composition of permutations.\<close>

definition mat_mul :: "real list list \<Rightarrow> real list list \<Rightarrow> real list list" where
  "mat_mul A B =
     map (\<lambda>a. map (\<lambda>j. \<Sum>k\<leftarrow>[0..<length B]. a ! k * B ! k ! j) [0..<length (hd B)]) A"

definition compose :: "nat list \<Rightarrow> nat list \<Rightarrow> nat list" where
  "compose s t = map (\<lambda>i. s ! (t ! i)) [0..<length t]"

section \<open>Row assignments in sequence\<close>

text \<open>
  The builder is a sequence of row assignments \<open>perm[a:b] = perm[idx]\<close>.  \<open>steps\<close> lists
  them in the order of the source; \<open>run_assign\<close> performs a list of them; \<open>src\<close> is the
  row of the start matrix that row \<open>r\<close> of the result holds when the ranges are disjoint
  and every step reads inside the range it writes (\<open>good_steps\<close>).
\<close>

definition run_assign :: "(nat \<times> nat \<times> nat list) list \<Rightarrow> 'a list \<Rightarrow> py_error + 'a list" where
  "run_assign sts perm = fold (\<lambda>(a, b, idx) acc. ebind acc (\<lambda>p. assign_rows p a b idx)) sts (Inr perm)"

fun good_steps :: "nat \<Rightarrow> nat \<Rightarrow> (nat \<times> nat \<times> nat list) list \<Rightarrow> bool" where
  "good_steps n lo [] = True"
| "good_steps n lo ((a, b, idx) # rest) =
     (lo \<le> a \<and> a \<le> b \<and> b \<le> n \<and> length idx = b - a
      \<and> list_all (\<lambda>x. a \<le> x \<and> x < b) idx \<and> good_steps n b rest)"

definition src :: "(nat \<times> nat \<times> nat list) list \<Rightarrow> nat \<Rightarrow> nat" where
  "src sts r = (case find (\<lambda>(a, b, idx). a \<le> r \<and> r < b) sts of
                  None \<Rightarrow> r
                | Some (a, b, idx) \<Rightarrow> idx ! (r - a))"

definition steps :: "bool \<Rightarrow> nat list \<Rightarrow> nat list \<Rightarrow> nat list \<Rightarrow> nat list \<Rightarrow> (nat \<times> nat \<times> nat list) list" where
  "steps sad symm cp hp dp =
     [(0, 125, hp),
      (167, 192, map (\<lambda>c. c + 167) cp),
      (203, 253, dp),
      (261, 266, map (\<lambda>s. 261 + s) symm),
      (281, 306, map (\<lambda>c. c + 281) cp)]
     @ concat (map (\<lambda>i. [(308 + 35 * i, 333 + 35 * i, map (\<lambda>c. c + 308 + 35 * i) cp),
                          (333 + 35 * i, 338 + 35 * i, map (\<lambda>s. 333 + 35 * i + s) symm)]) [0..<10])
     @ (if sad then [(666, 671, map (\<lambda>s. 666 + s) symm), (686, 711, map (\<lambda>c. c + 686) cp)] else [])"

text \<open>
  What the three index loops compute for a permutation of the colours, in closed form.
\<close>

definition card_closed :: "nat list \<Rightarrow> nat list" where
  "card_closed symm = map (\<lambda>t. 5 * (argsort symm ! (t div 5)) + t mod 5) [0..<25]"

definition hand_closed :: "nat list \<Rightarrow> nat list" where
  "hand_closed cp = concat (map (\<lambda>i. map (\<lambda>c. c + 25 * i) cp) [0..<5])"

definition discards_closed :: "nat list \<Rightarrow> nat list" where
  "discards_closed symm = map (\<lambda>t. 203 + 10 * (argsort symm ! (t div 10)) + t mod 10) [0..<50]"

text \<open>The steps of the builder for a permutation, and what the proofs need of it.\<close>

definition isteps :: "bool \<Rightarrow> nat list \<Rightarrow> (nat \<times> nat \<times> nat list) list" where
  "isteps sad symm = steps sad symm (card_closed symm) (hand_closed (card_closed symm)) (discards_closed symm)"

definition colour_perm_ok :: "nat list \<Rightarrow> bool" where
  "colour_perm_ok symm \<longleftrightarrow>
     length symm = 5 \<and> list_all (\<lambda>s. s < 5) symm
     \<and> length (argsort symm) = 5 \<and> list_all (\<lambda>s. s < 5) (argsort symm)
     \<and> card_perm symm = Inr (card_closed symm)
     \<and> discards_perm symm = Inr (discards_closed symm)"

text \<open>The matrix whose row \<open>r\<close> is the unit vector \<open>e\<^bsub>f r\<^esub>\<close>.\<close>

definition selection_matrix :: "nat \<Rightarrow> (nat \<Rightarrow> nat) \<Rightarrow> real list list" where
  "selection_matrix n f = map (\<lambda>r. unit_row n (f r)) [0..<n]"

text \<open>The second element of the cyclic table.\<close>

definition sigma1 :: "nat list" where "sigma1 = [4, 0, 1, 2, 3]"

text \<open>Two transpositions of the symmetric table, which do not commute.\<close>

definition sigma_a :: "nat list" where "sigma_a = [1, 0, 2, 3, 4]"

definition sigma_b :: "nat list" where "sigma_b = [0, 2, 1, 3, 4]"

section \<open>The auxiliary loss\<close>

text \<open>
  \<^verbatim>\<open>
  def cross_entropy(net, lstm_o, target_p, hand_slot_mask, seq_len):
      # target_p: [seq_len, batch, num_player, 5, 3]
      # hand_slot_mask: [seq_len, batch, num_player, 5]
      logit = net(lstm_o).view(target_p.size())
      q = nn.functional.softmax(logit, -1)
      logq = nn.functional.log_softmax(logit, -1)
      plogq = (target_p * logq).sum(-1)
      xent = -(plogq * hand_slot_mask).sum(-1) / hand_slot_mask.sum(-1).clamp(min=1e-6)
      if xent.dim() == 3:
          # [seq, batch, num_player]
          xent = xent.mean(2)
      # save before sum out
      seq_xent = xent
      xent = xent.sum(0)
      assert xent.size() == seq_len.size()
      avg_xent = (xent / seq_len).mean().item()
      return xent, avg_xent, q, seq_xent.detach()
  \<close>
  The numbers of the loss are the finite numbers, the two infinities and NaN, with the
  arithmetic of IEEE 754 on the special values: a non-zero number divided by zero is an
  infinity, \<open>0 / 0\<close>, \<open>\<infinity> - \<infinity>\<close>, \<open>0 \<cdot> \<infinity>\<close> and \<open>\<infinity> / \<infinity>\<close> are NaN, and NaN spreads through every
  operation.  On finite numbers the operations are exact: rounding, overflow of a finite
  result and the sign of zero are not modelled (a non-zero number divided by zero takes
  the sign of the numerator).  \<open>clamp(min=c)\<close> keeps NaN.  The mean over an empty axis is
  \<open>0 / 0\<close>.
\<close>

datatype fval = Fin real | PInf | NInf | NaN

fun fneg :: "fval \<Rightarrow> fval" where
  "fneg (Fin a) = Fin (- a)"
| "fneg PInf = NInf"
| "fneg NInf = PInf"
| "fneg NaN = NaN"

fun fadd :: "fval \<Rightarrow> fval \<Rightarrow> fval" where
  "fadd NaN y = NaN"
| "fadd x NaN = NaN"
| "fadd (Fin a) (Fin b) = Fin (a + b)"
| "fadd PInf NInf = NaN"
| "fadd NInf PInf = NaN"
| "fadd PInf y = PInf"
| "fadd x PInf = PInf"
| "fadd NInf y = NInf"
| "fadd x NInf = NInf"

fun fmul :: "fval \<Rightarrow> fval \<Rightarrow> fval" where
  "fmul NaN y = NaN"
| "fmul x NaN = NaN"
| "fmul (Fin a) (Fin b) = Fin (a * b)"
| "fmul (Fin a) PInf = (if a = 0 then NaN else if 0 < a then PInf else NInf)"
| "fmul (Fin a) NInf = (if a = 0 then NaN else if 0 < a then NInf else PInf)"
| "fmul PInf (Fin b) = (if b = 0 then NaN else if 0 < b then PInf else NInf)"
| "fmul NInf (Fin b) = (if b = 0 then NaN else if 0 < b then NInf else PInf)"
| "fmul PInf PInf = PInf"
| "fmul NInf NInf = PInf"
| "fmul PInf NInf = NInf"
| "fmul NInf PInf = NInf"

fun fdiv :: "fval \<Rightarrow> fval \<Rightarrow> fval" where
  "fdiv NaN y = NaN"
| "fdiv x NaN = NaN"
| "fdiv (Fin a) (Fin b) =
     (if b \<noteq> 0 then Fin (a / b) else if a = 0 then NaN else if 0 < a then PInf else NInf)"
| "fdiv (Fin a) PInf = Fin 0"
| "fdiv (Fin a) NInf = Fin 0"
| "fdiv PInf (Fin b) = (if 0 \<le> b then PInf else NInf)"
| "fdiv NInf (Fin b) = (if 0 \<le> b then NInf else PInf)"
| "fdiv x y = NaN"

fun clamp_min :: "real \<Rightarrow> fval \<Rightarrow> fval" where
  "clamp_min c (Fin a) = Fin (max a c)"
| "clamp_min c PInf = PInf"
| "clamp_min c NInf = Fin c"
| "clamp_min c NaN = NaN"

primrec fsum :: "fval list \<Rightarrow> fval" where
  "fsum [] = Fin 0"
| "fsum (x # xs) = fadd x (fsum xs)"

fun is_fin :: "fval \<Rightarrow> bool" where
  "is_fin (Fin a) = True"
| "is_fin x = False"

text \<open>\<open>mean\<close> divides the sum by the length of the axis.\<close>

definition mean_row :: "fval list \<Rightarrow> fval" where
  "mean_row xs = fdiv (fsum xs) (Fin (real (length xs)))"

text \<open>
  \<open>softmax\<close> and \<open>log_softmax\<close> subtract the maximum of the row first.  A row with NaN or
  \<open>+\<infinity>\<close>, or of \<open>-\<infinity>\<close> only, gives NaN everywhere; in any other row an entry \<open>-\<infinity>\<close> has the
  probability 0 and the logarithm \<open>-\<infinity>\<close>.
\<close>

definition no_softmax :: "fval list \<Rightarrow> bool" where
  "no_softmax xs \<longleftrightarrow> list_ex (\<lambda>x. x = NaN \<or> x = PInf) xs \<or> list_all (\<lambda>x. x = NInf) xs"

definition exp_sum :: "fval list \<Rightarrow> real" where
  "exp_sum xs = (\<Sum>x\<leftarrow>xs. case x of Fin a \<Rightarrow> exp a | _ \<Rightarrow> 0)"

definition softmax_row :: "fval list \<Rightarrow> fval list" where
  "softmax_row xs =
     (if no_softmax xs then map (\<lambda>x. NaN) xs
      else map (\<lambda>x. case x of Fin a \<Rightarrow> Fin (exp a / exp_sum xs) | _ \<Rightarrow> Fin 0) xs)"

definition log_softmax_row :: "fval list \<Rightarrow> fval list" where
  "log_softmax_row xs =
     (if no_softmax xs then map (\<lambda>x. NaN) xs
      else map (\<lambda>x. case x of Fin a \<Rightarrow> Fin (a - ln (exp_sum xs)) | _ \<Rightarrow> NInf) xs)"

text \<open>
  Reductions over the last axis work row by row; a tensor without axes is one row of
  width one.  The two element-wise products are taken between tensors of one shape
  (another shape of the mask is a \<open>ShapeError\<close> here; torch would broadcast some).
\<close>

definition last_dim :: "nat list \<Rightarrow> nat" where
  "last_dim ss = (if ss = [] then 1 else last ss)"

definition view :: "'a tensor \<Rightarrow> nat list \<Rightarrow> py_error + 'a tensor" where
  "view t ss = (if prod_list ss = length (vals t) then Inr \<lparr>sizes = ss, vals = vals t\<rparr>
                else Inl ShapeError)"

definition map_last :: "('a list \<Rightarrow> 'b list) \<Rightarrow> 'a tensor \<Rightarrow> 'b tensor" where
  "map_last f t =
     \<lparr>sizes = sizes t,
      vals = concat (map (\<lambda>n. f (row (last_dim (sizes t)) (vals t) n))
                      [0..<prod_list (butlast (sizes t))])\<rparr>"

definition reduce_last :: "('a list \<Rightarrow> 'b) \<Rightarrow> 'a tensor \<Rightarrow> 'b tensor" where
  "reduce_last f t =
     \<lparr>sizes = butlast (sizes t),
      vals = map (\<lambda>n. f (row (last_dim (sizes t)) (vals t) n))
               [0..<prod_list (butlast (sizes t))]\<rparr>"

definition ftimes :: "fval tensor \<Rightarrow> fval tensor \<Rightarrow> fval tensor" where
  "ftimes s t = \<lparr>sizes = sizes s, vals = map2 fmul (vals s) (vals t)\<rparr>"

text \<open>\<open>-(p * m).sum(-1) / m.sum(-1).clamp(min=1e-6)\<close> for one hand: the five slots of one player.\<close>

definition xent_row :: "fval list \<Rightarrow> fval list \<Rightarrow> fval" where
  "xent_row p m = fdiv (fneg (fsum (map2 fmul p m))) (clamp_min (1 / 1000000) (fsum m))"

definition sum0 :: "fval tensor \<Rightarrow> fval tensor" where
  "sum0 t = (case sizes t of
               [] \<Rightarrow> t
             | s # rest \<Rightarrow>
                 \<lparr>sizes = rest,
                  vals = map (\<lambda>j. fsum (map (\<lambda>i. vals t ! (i * prod_list rest + j)) [0..<s]))
                           [0..<prod_list rest]\<rparr>)"

text \<open>
  \<open>net\<close> is an argument of the source, a callable: here a function from the input to a
  tensor or an error.  Its logits may be infinite or NaN.
\<close>

definition cross_entropy ::
  "('a \<Rightarrow> py_error + fval tensor) \<Rightarrow> 'a \<Rightarrow> fval tensor \<Rightarrow> fval tensor \<Rightarrow> fval tensor
     \<Rightarrow> py_error + (fval tensor \<times> fval \<times> fval tensor \<times> fval tensor)" where
  "cross_entropy net lstm_o target_p hand_slot_mask seq_len =
     ebind (net lstm_o) (\<lambda>y.
     ebind (view y (sizes target_p)) (\<lambda>logit.
       let q = map_last softmax_row logit;
           logq = map_last log_softmax_row logit;
           plogq = reduce_last fsum (ftimes target_p logq)
       in if sizes plogq \<noteq> sizes hand_slot_mask then Inl ShapeError
          else
            let k = last_dim (sizes hand_slot_mask);
                xent = \<lparr>sizes = butlast (sizes hand_slot_mask),
                        vals = map (\<lambda>n. xent_row (row k (vals plogq) n) (row k (vals hand_slot_mask) n))
                                 [0..<prod_list (butlast (sizes hand_slot_mask))]\<rparr>;
                xent = (if dim xent = 3 then reduce_last mean_row xent else xent);
                seq_xent = xent;
                xent = sum0 xent
            in if sizes xent \<noteq> sizes seq_len then Inl AssertXentSize
               else Inr (xent,
                         mean_row (map2 fdiv (vals xent) (vals seq_len)),
                         q, seq_xent)))"

text \<open>
  \<open>pred_loss_1st\<close> of every class passes its layer \<open>pred_1st\<close> as \<open>net\<close>.  \<open>finite_net\<close> is a
  layer whose results stay finite.
\<close>

definition finite_net :: "('a \<Rightarrow> py_error + real tensor) \<Rightarrow> 'a \<Rightarrow> py_error + fval tensor" where
  "finite_net f x = ebind (f x) (\<lambda>y. Inr \<lparr>sizes = sizes y, vals = map Fin (vals y)\<rparr>)"

definition pred_loss_1st ::
  "linear \<Rightarrow> real tensor \<Rightarrow> fval tensor \<Rightarrow> fval tensor \<Rightarrow> fval tensor
     \<Rightarrow> py_error + (fval tensor \<times> fval \<times> fval tensor \<times> fval tensor)" where
  "pred_loss_1st pred_1st out target hand_slot_mask seq_len =
     cross_entropy (finite_net (Linear pred_1st)) out target hand_slot_mask seq_len"

definition ex_pred :: linear where
  "ex_pred = \<lparr>in_features = 1, out_features = 2, weight = [[1], [1]], bias = [0, 0]\<rparr>"

definition ex_lstm_o :: "real tensor" where "ex_lstm_o = \<lparr>sizes = [1, 1, 1], vals = [0]\<rparr>"

definition ex_target :: "fval tensor" where
  "ex_target = \<lparr>sizes = [1, 1, 1, 1, 2], vals = [Fin 1, Fin 0]\<rparr>"

definition ex_mask :: "fval tensor" where "ex_mask = \<lparr>sizes = [1, 1, 1, 1], vals = [Fin 0]\<rparr>"

definition ex_seq_len :: "fval tensor" where "ex_seq_len = \<lparr>sizes = [1], vals = [Fin 1]\<rparr>"

section \<open>Tensor operations of the equivariant networks\<close>

text \<open>
  Weights and buffers built at construction are matrices given by their rows;
  activations are tensors.  \<open>torch.matmul\<close> of a tensor and a matrix multiplies every row
  of the tensor by the matrix; with a stack of matrices as second argument the matrix is
  chosen by the third axis from the end of the tensor.
\<close>

definition ncols :: "'a list list \<Rightarrow> nat" where
  "ncols M = (case M of [] \<Rightarrow> 0 | r # _ \<Rightarrow> length r)"

definition vec_mat :: "real list \<Rightarrow> real list list \<Rightarrow> real list" where
  "vec_mat x M = map (\<lambda>j. \<Sum>l\<leftarrow>[0..<length M]. x ! l * M ! l ! j) [0..<ncols M]"

definition matmul_mat :: "real tensor \<Rightarrow> real list list \<Rightarrow> py_error + real tensor" where
  "matmul_mat t M =
     (if sizes t = [] \<or> last (sizes t) \<noteq> length M then Inl ShapeError
      else Inr \<lparr>sizes = butlast (sizes t) @ [ncols M],
                vals = concat (map (\<lambda>n. vec_mat (row (length M) (vals t) n) M)
                                 [0..<prod_list (butlast (sizes t))])\<rparr>)"

definition matmul_stack :: "real tensor \<Rightarrow> real list list list \<Rightarrow> py_error + real tensor" where
  "matmul_stack t Ms =
     (if dim t < 3 \<or> sizes t ! (dim t - 3) \<noteq> length Ms
         \<or> \<not> list_all (\<lambda>M. length M = last (sizes t) \<and> ncols M = ncols (hd Ms)) Ms
      then Inl ShapeError
      else Inr \<lparr>sizes = butlast (sizes t) @ [ncols (hd Ms)],
                vals = concat (map (\<lambda>n. vec_mat (row (last (sizes t)) (vals t) n)
                                           (Ms ! ((n div (sizes t ! (dim t - 2))) mod length Ms)))
                                 [0..<prod_list (butlast (sizes t))])\<rparr>)"

definition reshape :: "'a tensor \<Rightarrow> nat list \<Rightarrow> py_error + 'a tensor" where
  "reshape t ss = (if prod_list ss = length (vals t) then Inr \<lparr>sizes = ss, vals = vals t\<rparr>
                   else Inl ShapeError)"

text \<open>
  \<open>reshape(pre, -1, post)\<close>: the open dimension is what the number of elements leaves, and
  must come out even.
\<close>

definition reshape_infer :: "'a tensor \<Rightarrow> nat list \<Rightarrow> nat list \<Rightarrow> py_error + 'a tensor" where
  "reshape_infer t pre post =
     (let p = prod_list pre * prod_list post
      in if p = 0 \<or> length (vals t) mod p \<noteq> 0 then Inl ShapeError
         else Inr \<lparr>sizes = pre @ [length (vals t) div p] @ post, vals = vals t\<rparr>)"

text \<open>\<open>transpose(k, k+1)\<close> and \<open>sum(k)\<close>, by the position of an element along the axes.\<close>

definition transpose_adj :: "nat \<Rightarrow> 'a tensor \<Rightarrow> py_error + 'a tensor" where
  "transpose_adj k t =
     (if dim t < k + 2 then Inl IndexError
      else
        let a = sizes t ! k; b = sizes t ! (k + 1);
            inner = prod_list (drop (k + 2) (sizes t))
        in Inr \<lparr>sizes = take k (sizes t) @ [b, a] @ drop (k + 2) (sizes t),
                  vals = map (\<lambda>p. let r = p mod inner; q = p div inner;
                                      i = q mod a; j = (q div a) mod b; u = (q div a) div b
                                  in vals t ! (((u * a + i) * b + j) * inner + r))
                           [0..<length (vals t)]\<rparr>)"

definition sum_axis :: "nat \<Rightarrow> real tensor \<Rightarrow> py_error + real tensor" where
  "sum_axis k t =
     (if dim t < k + 1 then Inl IndexError
      else
        let mid = sizes t ! k; inner = prod_list (drop (k + 1) (sizes t));
            outer = prod_list (take k (sizes t))
        in Inr \<lparr>sizes = take k (sizes t) @ drop (k + 1) (sizes t),
                  vals = map (\<lambda>p. \<Sum>i\<leftarrow>[0..<mid]. vals t ! (((p div inner) * mid + i) * inner + p mod inner))
                           [0..<outer * inner]\<rparr>)"

text \<open>\<open>x * 1 / n\<close>, element by element.\<close>

definition times_one_over :: "nat \<Rightarrow> real tensor \<Rightarrow> real tensor" where
  "times_one_over n t = \<lparr>sizes = sizes t, vals = map (\<lambda>x. x * 1 / real n) (vals t)\<rparr>"

text \<open>\<open>flatten(1, 2)\<close> merges the second and the third axis.\<close>

definition flatten12 :: "'a tensor \<Rightarrow> py_error + 'a tensor" where
  "flatten12 t =
     (if dim t < 3 then Inl IndexError
      else Inr \<lparr>sizes = [sizes t ! 0, sizes t ! 1 * sizes t ! 2] @ drop 3 (sizes t), vals = vals t\<rparr>)"

section \<open>The recurrent layer\<close>

text \<open>
  \<open>nn.LSTM\<close> is library code.  Its model is the recurrence it computes: a cell, a parameter,
  maps the input of one step and the state of the layers (one row each for \<open>h\<close> and for
  \<open>c\<close>) to the output of the step and the new state; the layer runs the cell along the
  sequence for every batch entry on its own.  The input is \<open>[seq, batch, in]\<close>, the states
  are \<open>[layers, batch, hid]\<close>, zero when none is given.
\<close>

type_synonym cell = "real list \<Rightarrow> real list list \<Rightarrow> real list list
                        \<Rightarrow> real list \<times> real list list \<times> real list list"

fun lstm_seq :: "cell \<Rightarrow> real list list \<Rightarrow> real list list \<Rightarrow> real list list
                   \<Rightarrow> real list list \<times> real list list \<times> real list list" where
  "lstm_seq f [] h c = ([], h, c)"
| "lstm_seq f (x # xs) h c =
     (case f x h c of (y, h1, c1) \<Rightarrow>
        (case lstm_seq f xs h1 c1 of (ys, hn, cn) \<Rightarrow> (y # ys, hn, cn)))"

record lstm =
  lstm_cell :: cell
  lstm_input_size :: nat
  lstm_hidden_size :: nat
  lstm_num_layers :: nat

definition sample :: "nat \<Rightarrow> nat \<Rightarrow> nat \<Rightarrow> real list \<Rightarrow> nat \<Rightarrow> real list list" where
  "sample len batch width xs n = map (\<lambda>t. row width xs (t * batch + n)) [0..<len]"

definition LSTM ::
  "lstm \<Rightarrow> real tensor \<Rightarrow> (real tensor \<times> real tensor) option
     \<Rightarrow> py_error + (real tensor \<times> real tensor \<times> real tensor)" where
  "LSTM m x init =
     (if dim x \<noteq> 3 \<or> sizes x ! 2 \<noteq> lstm_input_size m then Inl ShapeError
      else
        let s = sizes x ! 0; n = sizes x ! 1;
            l = lstm_num_layers m; h = lstm_hidden_size m;
            zero = \<lparr>sizes = [l, n, h], vals = replicate (l * n * h) 0\<rparr>;
            h0 = (case init of None \<Rightarrow> zero | Some (h0, c0) \<Rightarrow> h0);
            c0 = (case init of None \<Rightarrow> zero | Some (h0, c0) \<Rightarrow> c0)
        in if sizes h0 \<noteq> [l, n, h] \<or> sizes c0 \<noteq> [l, n, h] then Inl ShapeError
           else
             let run = (\<lambda>b. lstm_seq (lstm_cell m) (sample s n (lstm_input_size m) (vals x) b)
                                (sample l n h (vals h0) b) (sample l n h (vals c0) b))
             in Inr (\<lparr>sizes = [s, n, h],
                       vals = concat (map (\<lambda>t. concat (map (\<lambda>b. fst (run b) ! t) [0..<n])) [0..<s])\<rparr>,
                     \<lparr>sizes = [l, n, h],
                       vals = concat (map (\<lambda>k. concat (map (\<lambda>b. fst (snd (run b)) ! k) [0..<n])) [0..<l])\<rparr>,
                     \<lparr>sizes = [l, n, h],
                       vals = concat (map (\<lambda>k. concat (map (\<lambda>b. snd (snd (run b)) ! k) [0..<n])) [0..<l])\<rparr>))"

section \<open>EquivariantLSTMNet\<close>

datatype in_dim = IntDim nat | SeqDim "nat list"

text \<open>
  \<^verbatim>\<open>
  if isinstance(in_dim, int):
      assert in_dim == 783
      self.in_dim = in_dim
      self.priv_in_dim = in_dim - 125
      self.publ_in_dim = in_dim - 2 * 125
  else:
      self.in_dim = in_dim
      self.priv_in_dim = in_dim[1]
      self.publ_in_dim = in_dim[2]
  \<close>
\<close>

definition priv_publ_dims :: "in_dim \<Rightarrow> py_error + (nat \<times> nat)" where
  "priv_publ_dims d =
     (case d of
        IntDim n \<Rightarrow> if n \<noteq> 783 then Inl AssertInDim else Inr (n - 125, n - 2 * 125)
      | SeqDim xs \<Rightarrow> if length xs < 3 then Inl IndexError else Inr (xs ! 1, xs ! 2))"

text \<open>
  The layers are created with random weights; the weights are arguments of the model of
  the constructor.
\<close>

record params =
  p_net :: "real list list \<times> real list"
  p_cell :: cell
  p_fc_v :: "real list list \<times> real list"
  p_fc_a :: "real list list \<times> real list"

definition nn_Linear :: "nat \<Rightarrow> nat \<Rightarrow> real list list \<times> real list \<Rightarrow> linear" where
  "nn_Linear i k wb = \<lparr>in_features = i, out_features = k, weight = fst wb, bias = snd wb\<rparr>"

record EquivariantLSTMNet =
  e_priv_in_dim :: nat
  e_publ_in_dim :: nat
  e_hid_dim :: nat
  e_out_dim :: nat
  e_num_lstm_layer :: nat
  e_net :: "linear list"
  e_lstm :: lstm
  e_fc_v :: linear
  e_fc_a :: linear
  e_symmetries :: "nat list list"
  e_num_symmetries :: nat
  e_inv_symmetries :: "nat list list"
  e_input_perms :: "real list list"
  e_output_perms :: "real list list list"
  e_hidden_cell_repeat :: "real list list"

text \<open>\<open>transpose(0, 1)\<close> of a matrix; \<open>torch.cat\<close> along the rows is list append.\<close>

definition transpose_mat :: "'a list list \<Rightarrow> 'a list list" where
  "transpose_mat A = map (\<lambda>l. map (\<lambda>r. r ! l) A) [0..<ncols A]"

text \<open>
  \<^verbatim>\<open>
  self.input_perms = torch.eye((self.priv_in_dim))
  self.output_perms = torch.eye((out_dim))
  for symm in self.symmetries[1:]:
      perm = torch.eye(self.priv_in_dim)
      ...                                   # the builder, with sad = (priv_in_dim == 713)
      self.input_perms = torch.cat([self.input_perms, perm])
  self.input_perms = self.input_perms.transpose(0, 1)
  for symm in self.inv_symmetries[1:]:
      perm = torch.eye(self.out_dim)
      temp = torch.tensor([10,10,10,10,10], dtype=torch.long)
      perm[10:15] = perm[temp + symm]
      self.output_perms = torch.cat([self.output_perms, perm])
  self.output_perms = self.output_perms.reshape(self.num_symmetries, self.out_dim, self.out_dim)
  self.hidden_cell_repeat = torch.eye(self.hid_dim).repeat(1, self.num_symmetries)
  \<close>
\<close>

definition stack_input_perms :: "nat \<Rightarrow> nat list list \<Rightarrow> py_error + real list list" where
  "stack_input_perms n symms =
     fold (\<lambda>symm acc. ebind acc (\<lambda>input_perms.
             ebind (build_input_perm (n = 713) symm (eye n)) (\<lambda>perm. Inr (input_perms @ perm))))
          symms (Inr (eye n))"

definition stack_output_perms :: "nat \<Rightarrow> nat list list \<Rightarrow> py_error + real list list" where
  "stack_output_perms n symms =
     fold (\<lambda>symm acc. ebind acc (\<lambda>output_perms.
             ebind (build_output_perm symm (eye n)) (\<lambda>perm. Inr (output_perms @ perm))))
          symms (Inr (eye n))"

definition EquivariantLSTMNet_init ::
  "params \<Rightarrow> in_dim \<Rightarrow> nat \<Rightarrow> nat \<Rightarrow> nat \<Rightarrow> py_error + EquivariantLSTMNet" where
  "EquivariantLSTMNet_init ps in_dim hid_dim out_dim num_lstm_layer =
     ebind (priv_publ_dims in_dim) (\<lambda>(priv_in_dim, publ_in_dim).
       let g = group_setup group_type
       in ebind (stack_input_perms priv_in_dim (tl (symmetries g))) (\<lambda>input_perms.
          ebind (stack_output_perms out_dim (tl (inv_symmetries g))) (\<lambda>output_perms.
          Inr \<lparr>e_priv_in_dim = priv_in_dim,
               e_publ_in_dim = publ_in_dim,
               e_hid_dim = hid_dim,
               e_out_dim = out_dim,
               e_num_lstm_layer = num_lstm_layer,
               e_net = [nn_Linear priv_in_dim hid_dim (p_net ps)],
               e_lstm = \<lparr>lstm_cell = p_cell ps, lstm_input_size = hid_dim,
                          lstm_hidden_size = hid_dim, lstm_num_layers = num_lstm_layer\<rparr>,
               e_fc_v = nn_Linear hid_dim 1 (p_fc_v ps),
               e_fc_a = nn_Linear hid_dim out_dim (p_fc_a ps),
               e_symmetries = symmetries g,
               e_num_symmetries = num_symmetries g,
               e_inv_symmetries = inv_symmetries g,
               e_input_perms = transpose_mat input_perms,
               e_output_perms = map (\<lambda>k. take out_dim (drop (k * out_dim) output_perms))
                                  [0..<num_symmetries g],
               e_hidden_cell_repeat = map (\<lambda>r. concat (replicate (num_symmetries g) r)) (eye hid_dim)\<rparr>)))"

definition size_at :: "'a tensor \<Rightarrow> nat \<Rightarrow> py_error + nat" where
  "size_at t k = (if k < dim t then Inr (sizes t ! k) else Inl IndexError)"

text \<open>
  \<open>batchsize = priv_s.size(0)\<close> and
  \<open>torch.matmul(priv_s, self.input_perms).reshape(batchsize*self.num_symmetries, self.priv_in_dim)\<close>.
\<close>

definition expand_act :: "real list list \<Rightarrow> nat \<Rightarrow> nat \<Rightarrow> real tensor \<Rightarrow> py_error + real tensor" where
  "expand_act perms num width s =
     ebind (size_at s 0) (\<lambda>batchsize.
     ebind (matmul_mat s perms) (\<lambda>s.
     reshape s [batchsize * num, width]))"

text \<open>
  \<open>hid[name].transpose(0, 1).flatten(1, 2).contiguous()\<close>, then
  \<open>torch.matmul(..., self.hidden_cell_repeat).reshape(2, size(1) * num_symmetries, hid_dim)\<close>.
\<close>

definition repeat_state :: "EquivariantLSTMNet \<Rightarrow> real tensor \<Rightarrow> py_error + real tensor" where
  "repeat_state m h =
     ebind (matmul_mat h (e_hidden_cell_repeat m)) (\<lambda>hh.
     ebind (size_at h 1) (\<lambda>n.
     reshape hh [2, n * e_num_symmetries m, e_hid_dim m]))"

definition act_state :: "real tensor \<Rightarrow> py_error + real tensor" where
  "act_state h = ebind (transpose_adj 0 h) flatten12"

text \<open>
  \<open>h.reshape(2, -1, num_symmetries, hid_dim).sum(2)*1/num_symmetries\<close>, then
  \<open>h.view(num_lstm_layer, bsize, -1, hid_dim).transpose(0, 1)\<close>.
\<close>

definition mean_state :: "EquivariantLSTMNet \<Rightarrow> nat \<Rightarrow> real tensor \<Rightarrow> py_error + real tensor" where
  "mean_state m bsize h =
     ebind (reshape_infer h [2] [e_num_symmetries m, e_hid_dim m]) (\<lambda>h.
     ebind (sum_axis 2 h) (\<lambda>h.
     ebind (reshape_infer (times_one_over (e_num_symmetries m) h) [e_num_lstm_layer m, bsize] [e_hid_dim m]) (\<lambda>h.
     transpose_adj 0 h)))"

text \<open>
  \<^verbatim>\<open>
  def act(self, priv_s, publ_s, hid):
      assert priv_s.dim() == 2
      bsize = hid["h0"].size(0)
      assert hid["h0"].dim() == 4
      hid = {"h0": hid["h0"].transpose(0, 1).flatten(1, 2).contiguous(),
             "c0": hid["c0"].transpose(0, 1).flatten(1, 2).contiguous()}
      batchsize = priv_s.size(0)
      priv_s = torch.matmul(priv_s, self.input_perms).reshape(batchsize*self.num_symmetries, self.priv_in_dim)
      hid_h0 = torch.matmul(hid["h0"], self.hidden_cell_repeat).reshape(2, hid["h0"].size(1)*self.num_symmetries, self.hid_dim)
      hid_c0 = torch.matmul(hid["c0"], self.hidden_cell_repeat).reshape(2, hid["c0"].size(1)*self.num_symmetries, self.hid_dim)
      priv_s = priv_s.unsqueeze(0)
      x = self.net(priv_s)
      o, (h, c) = self.lstm(x, (hid_h0, hid_c0))
      a = self.fc_a(o)
      a = a.squeeze(0).reshape(batchsize, self.num_symmetries, self.out_dim)
      a = torch.matmul(a.transpose(0, 1), self.output_perms).sum(0)*1/self.num_symmetries
      h = h.reshape(2, -1, self.num_symmetries, self.hid_dim).sum(2)*1/self.num_symmetries
      c = c.reshape(2, -1, self.num_symmetries, self.hid_dim).sum(2)*1/self.num_symmetries
      interim_hid_shape = (self.num_lstm_layer, bsize, -1, self.hid_dim)
      h = h.view(*interim_hid_shape).transpose(0, 1)
      c = c.view(*interim_hid_shape).transpose(0, 1)
      return a, {"h0": h, "c0": c}
  \<close>
\<close>

definition EquivariantLSTMNet_act ::
  "EquivariantLSTMNet \<Rightarrow> real tensor \<Rightarrow> real tensor \<Rightarrow> hid \<Rightarrow> py_error + (real tensor \<times> hid)" where
  "EquivariantLSTMNet_act m priv_s publ_s hid =
     (if dim priv_s \<noteq> 2 then Inl AssertActDim
      else
        ebind (lookup hid ''h0'') (\<lambda>h0.
        ebind (size_at h0 0) (\<lambda>bsize.
        if dim h0 \<noteq> 4 then Inl AssertHidDim
        else
        ebind (act_state h0) (\<lambda>h0.
        ebind (lookup hid ''c0'') (\<lambda>c0.
        ebind (act_state c0) (\<lambda>c0.
        let batchsize = sizes priv_s ! 0 in
        ebind (expand_act (e_input_perms m) (e_num_symmetries m) (e_priv_in_dim m) priv_s) (\<lambda>priv_s.
        ebind (repeat_state m h0) (\<lambda>hid_h0.
        ebind (repeat_state m c0) (\<lambda>hid_c0.
        ebind (Sequential (e_net m) (unsqueeze0 priv_s)) (\<lambda>x.
        ebind (LSTM (e_lstm m) x (Some (hid_h0, hid_c0))) (\<lambda>(out, h, c).
        ebind (Linear (e_fc_a m) out) (\<lambda>a.
        ebind (reshape (squeeze0 a) [batchsize, e_num_symmetries m, e_out_dim m]) (\<lambda>a.
        ebind (transpose_adj 0 a) (\<lambda>a.
        ebind (matmul_stack a (e_output_perms m)) (\<lambda>a.
        ebind (sum_axis 0 a) (\<lambda>a.
        ebind (mean_state m bsize h) (\<lambda>h.
        ebind (mean_state m bsize c) (\<lambda>c.
        Inr (times_one_over (e_num_symmetries m) a, [(''h0'', h), (''c0'', c)])))))))))))))))))))"

text \<open>
  \<^verbatim>\<open>
  def forward(self, priv_s, publ_s, legal_move, action, hid):
      assert priv_s.dim() == 3 or priv_s.dim() == 2
      one_step = False
      if priv_s.dim() == 2:
          priv_s = priv_s.unsqueeze(0)
          publ_s = publ_s.unsqueeze(0)
          legal_move = legal_move.unsqueeze(0)
          action = action.unsqueeze(0)
          one_step = True
      batchsize = priv_s.size(1)
      priv_s = torch.matmul(priv_s, self.input_perms).reshape(80, batchsize*self.num_symmetries, self.priv_in_dim)
      x = self.net(priv_s)
      if len(hid) == 0:
          o, _ = self.lstm(x)
      else:
          hid_h0 = torch.matmul(hid["h0"], self.hidden_cell_repeat).reshape(2, hid["h0"].size(1)*self.num_symmetries, self.hid_dim)
          hid_c0 = torch.matmul(hid["c0"], self.hidden_cell_repeat).reshape(2, hid["c0"].size(1)*self.num_symmetries, self.hid_dim)
          o, _ = self.lstm(x, (hid_h0, hid_c0))
      a = self.fc_a(o).reshape(80, batchsize, self.num_symmetries, self.out_dim)
      a = torch.matmul(a.transpose(1, 2), self.output_perms).sum(1)*1/self.num_symmetries
      v = self.fc_v(o).reshape(80, batchsize, self.num_symmetries, -1).sum(2)*1/self.num_symmetries
      q = duel(v, a, legal_move)
      qa = q.gather(2, action.unsqueeze(2)).squeeze(2)
      assert q.size() == legal_move.size()
      legal_q = (1 + q - q.min()) * legal_move
      greedy_action = legal_q.argmax(2).detach()
      if one_step:
          qa = qa.squeeze(0)
          greedy_action = greedy_action.squeeze(0)
          o = o.squeeze(0)
          q = q.squeeze(0)
      o = o.reshape(-1, batchsize, self.num_symmetries, self.hid_dim).sum(2)*1/self.num_symmetries
      return qa, greedy_action, q, o
  \<close>
  The two lines after the entry are \<open>expand_80\<close>; \<open>act\<close> has \<open>expand_act\<close> in their place.
\<close>

definition expand_80 :: "real list list \<Rightarrow> nat \<Rightarrow> nat \<Rightarrow> real tensor \<Rightarrow> py_error + real tensor" where
  "expand_80 perms num width s =
     ebind (size_at s 1) (\<lambda>batchsize.
     ebind (matmul_mat s perms) (\<lambda>s.
     reshape s [80, batchsize * num, width]))"

definition forward_state ::
  "EquivariantLSTMNet \<Rightarrow> hid \<Rightarrow> py_error + (real tensor \<times> real tensor) option" where
  "forward_state m hid =
     (if length hid = 0 then Inr None
      else ebind (lookup hid ''h0'') (\<lambda>h0.
           ebind (repeat_state m h0) (\<lambda>hid_h0.
           ebind (lookup hid ''c0'') (\<lambda>c0.
           ebind (repeat_state m c0) (\<lambda>hid_c0.
           Inr (Some (hid_h0, hid_c0)))))))"

definition mean_over_group :: "nat \<Rightarrow> nat list \<Rightarrow> nat list \<Rightarrow> real tensor \<Rightarrow> py_error + real tensor" where
  "mean_over_group num pre post t =
     ebind (reshape_infer t pre post) (\<lambda>t.
     ebind (sum_axis 2 t) (\<lambda>t. Inr (times_one_over num t)))"

definition EquivariantLSTMNet_forward ::
  "EquivariantLSTMNet \<Rightarrow> real tensor \<Rightarrow> real tensor \<Rightarrow> real tensor \<Rightarrow> nat tensor \<Rightarrow> hid
     \<Rightarrow> py_error + (real tensor \<times> nat tensor \<times> real tensor \<times> real tensor)" where
  "EquivariantLSTMNet_forward m priv_s publ_s legal_move action hid =
     (if \<not> (dim priv_s = 3 \<or> dim priv_s = 2) then Inl AssertEntryDim
      else
        let one_step = (dim priv_s = 2);
            priv_s = (if one_step then unsqueeze0 priv_s else priv_s);
            legal_move = (if one_step then unsqueeze0 legal_move else legal_move);
            action = (if one_step then unsqueeze0 action else action);
            batchsize = sizes priv_s ! 1;
            num = e_num_symmetries m
        in
        ebind (expand_80 (e_input_perms m) num (e_priv_in_dim m) priv_s) (\<lambda>priv_s.
        ebind (Sequential (e_net m) priv_s) (\<lambda>x.
        ebind (forward_state m hid) (\<lambda>init.
        ebind (LSTM (e_lstm m) x init) (\<lambda>(out, h, c).
        ebind (Linear (e_fc_a m) out) (\<lambda>a.
        ebind (reshape a [80, batchsize, num, e_out_dim m]) (\<lambda>a.
        ebind (transpose_adj 1 a) (\<lambda>a.
        ebind (matmul_stack a (e_output_perms m)) (\<lambda>a.
        ebind (sum_axis 1 a) (\<lambda>a.
        ebind (Linear (e_fc_v m) out) (\<lambda>v.
        ebind (mean_over_group num [80, batchsize, num] [] v) (\<lambda>v.
        ebind (duel v (times_one_over num a) legal_move) (\<lambda>q.
        ebind (gather2 q action) (\<lambda>qa.
        ebind (greedy_head q legal_move) (\<lambda>greedy_action.
        ebind (mean_over_group num [] [batchsize, num, e_hid_dim m]
                 (if one_step then squeeze0 out else out)) (\<lambda>out.
        if one_step then Inr (squeeze0 qa, squeeze0 greedy_action, squeeze0 q, out)
        else Inr (qa, greedy_action, q, out)))))))))))))))))"

section \<open>EquivariantPublicLSTMNet\<close>

record EquivariantPublicLSTMNet =
  ep_priv_in_dim :: nat
  ep_publ_in_dim :: nat
  ep_hid_dim :: nat
  ep_out_dim :: nat
  ep_num_lstm_layer :: nat
  ep_priv_net :: "linear list"
  ep_publ_net :: "linear list"
  ep_lstm :: lstm
  ep_fc_v :: linear
  ep_fc_a :: linear
  ep_num_symmetries :: nat
  ep_priv_input_perms :: "real list list"
  ep_publ_input_perms :: "real list list"
  ep_output_perms :: "real list list list"
  ep_hidden_cell_repeat :: "real list list"

text \<open>
  \<open>forward\<close> of the public variant differs in its body only:
  \<^verbatim>\<open>
      batchsize = priv_s.size(1)
      priv_s = torch.matmul(priv_s, self.priv_input_perms).reshape(80, batchsize*self.num_symmetries, self.priv_in_dim)
      publ_s = torch.matmul(publ_s, self.publ_input_perms).reshape(80, batchsize*self.num_symmetries, self.publ_in_dim)
      x = self.publ_net(publ_s)
      if len(hid) == 0:
          publ_o, _ = self.lstm(x)
      else:
          ...
          publ_o, _ = self.lstm(x, (hid_h0, hid_c0))
      priv_o = self.priv_net(priv_s)
      o = priv_o * publ_o
  \<close>
\<close>

definition publ_repeat_state :: "EquivariantPublicLSTMNet \<Rightarrow> real tensor \<Rightarrow> py_error + real tensor" where
  "publ_repeat_state m h =
     ebind (matmul_mat h (ep_hidden_cell_repeat m)) (\<lambda>hh.
     ebind (size_at h 1) (\<lambda>n.
     reshape hh [2, n * ep_num_symmetries m, ep_hid_dim m]))"

definition publ_forward_state ::
  "EquivariantPublicLSTMNet \<Rightarrow> hid \<Rightarrow> py_error + (real tensor \<times> real tensor) option" where
  "publ_forward_state m hid =
     (if length hid = 0 then Inr None
      else ebind (lookup hid ''h0'') (\<lambda>h0.
           ebind (publ_repeat_state m h0) (\<lambda>hid_h0.
           ebind (lookup hid ''c0'') (\<lambda>c0.
           ebind (publ_repeat_state m c0) (\<lambda>hid_c0.
           Inr (Some (hid_h0, hid_c0)))))))"

text \<open>The element-wise product of two tensors of one shape.\<close>

definition times :: "real tensor \<Rightarrow> real tensor \<Rightarrow> real tensor" where
  "times s t = \<lparr>sizes = sizes s, vals = map2 (*) (vals s) (vals t)\<rparr>"

definition times_same :: "real tensor \<Rightarrow> real tensor \<Rightarrow> py_error + real tensor" where
  "times_same s t = (if sizes s = sizes t then Inr (times s t) else Inl ShapeError)"

definition EquivariantPublicLSTMNet_forward ::
  "EquivariantPublicLSTMNet \<Rightarrow> real tensor \<Rightarrow> real tensor \<Rightarrow> real tensor \<Rightarrow> nat tensor \<Rightarrow> hid
     \<Rightarrow> py_error + (real tensor \<times> nat tensor \<times> real tensor \<times> real tensor)" where
  "EquivariantPublicLSTMNet_forward m priv_s publ_s legal_move action hid =
     (if \<not> (dim priv_s = 3 \<or> dim priv_s = 2) then Inl AssertEntryDim
      else
        let one_step = (dim priv_s = 2);
            priv_s = (if one_step then unsqueeze0 priv_s else priv_s);
            publ_s = (if one_step then unsqueeze0 publ_s else publ_s);
            legal_move = (if one_step then unsqueeze0 legal_move else legal_move);
            action = (if one_step then unsqueeze0 action else action);
            batchsize = sizes priv_s ! 1;
            num = ep_num_symmetries m
        in
        ebind (expand_80 (ep_priv_input_perms m) num (ep_priv_in_dim m) priv_s) (\<lambda>priv_s.
        ebind (matmul_mat publ_s (ep_publ_input_perms m)) (\<lambda>publ_s.
        ebind (reshape publ_s [80, batchsize * num, ep_publ_in_dim m]) (\<lambda>publ_s.
        ebind (Sequential (ep_publ_net m) publ_s) (\<lambda>x.
        ebind (publ_forward_state m hid) (\<lambda>init.
        ebind (LSTM (ep_lstm m) x init) (\<lambda>(publ_o, h, c).
        ebind (Sequential (ep_priv_net m) priv_s) (\<lambda>priv_o.
        ebind (times_same priv_o publ_o) (\<lambda>out.
        ebind (Linear (ep_fc_a m) out) (\<lambda>a.
        ebind (reshape a [80, batchsize, num, ep_out_dim m]) (\<lambda>a.
        ebind (transpose_adj 1 a) (\<lambda>a.
        ebind (matmul_stack a (ep_output_perms m)) (\<lambda>a.
        ebind (sum_axis 1 a) (\<lambda>a.
        ebind (Linear (ep_fc_v m) out) (\<lambda>v.
        ebind (mean_over_group num [80, batchsize, num] [] v) (\<lambda>v.
        ebind (duel v (times_one_over num a) legal_move) (\<lambda>q.
        ebind (gather2 q action) (\<lambda>qa.
        ebind (greedy_head q legal_move) (\<lambda>greedy_action.
        ebind (mean_over_group num [] [batchsize, num, ep_hid_dim m]
                 (if one_step then squeeze0 out else out)) (\<lambda>out.
        if one_step then Inr (squeeze0 qa, squeeze0 greedy_action, squeeze0 q, out)
        else Inr (qa, greedy_action, q, out)))))))))))))))))))))"

definition ex_cell :: cell where
  "ex_cell x h c = (x, h, c)"

definition ex_enet :: EquivariantLSTMNet where
  "ex_enet = \<lparr>e_priv_in_dim = 1, e_publ_in_dim = 1, e_hid_dim = 1, e_out_dim = 1, e_num_lstm_layer = 2,
     e_net = [nn_Linear 1 1 ([[1]], [0])],
     e_lstm = \<lparr>lstm_cell = ex_cell, lstm_input_size = 1, lstm_hidden_size = 1, lstm_num_layers = 2\<rparr>,
     e_fc_v = nn_Linear 1 1 ([[1]], [0]), e_fc_a = nn_Linear 1 1 ([[1]], [0]),
     e_symmetries = [colours], e_num_symmetries = 1, e_inv_symmetries = [colours],
     e_input_perms = [[1]], e_output_perms = [[[1]]], e_hidden_cell_repeat = [[1]]\<rparr>"

definition ex_pnet :: EquivariantPublicLSTMNet where
  "ex_pnet = \<lparr>ep_priv_in_dim = 1, ep_publ_in_dim = 1, ep_hid_dim = 1, ep_out_dim = 1, ep_num_lstm_layer = 2,
     ep_priv_net = [nn_Linear 1 1 ([[1]], [0])], ep_publ_net = [nn_Linear 1 1 ([[1]], [0])],
     ep_lstm = \<lparr>lstm_cell = ex_cell, lstm_input_size = 1, lstm_hidden_size = 1, lstm_num_layers = 2\<rparr>,
     ep_fc_v = nn_Linear 1 1 ([[1]], [0]), ep_fc_a = nn_Linear 1 1 ([[1]], [0]),
     ep_num_symmetries = 1, ep_priv_input_perms = [[1]], ep_publ_input_perms = [[1]],
     ep_output_perms = [[[1]]], ep_hidden_cell_repeat = [[1]]\<rparr>"

definition ex_priv1 :: "real tensor" where "ex_priv1 = \<lparr>sizes = [1, 1], vals = [3]\<rparr>"

definition ex_legal1 :: "real tensor" where "ex_legal1 = \<lparr>sizes = [1, 1], vals = [1]\<rparr>"

definition ex_action1 :: "nat tensor" where "ex_action1 = \<lparr>sizes = [1], vals = [0]\<rparr>"

section \<open>Concrete inputs\<close>

text \<open>Small networks and batches on which the definitions are evaluated.\<close>

definition ex_v :: "real tensor" where "ex_v = \<lparr>sizes = [1, 1, 1], vals = [0]\<rparr>"
definition ex_a :: "real tensor" where "ex_a = \<lparr>sizes = [1, 1, 2], vals = [2, 4]\<rparr>"
definition ex_l :: "real tensor" where "ex_l = \<lparr>sizes = [1, 1, 2], vals = [1, 0]\<rparr>"

definition ex_id2 :: linear where
  "ex_id2 = \<lparr>in_features = 2, out_features = 2, weight = [[1, 0], [0, 1]], bias = [0, 0]\<rparr>"
definition ex_fc_v :: linear where
  "ex_fc_v = \<lparr>in_features = 2, out_features = 1, weight = [[1, 1]], bias = [0]\<rparr>"
definition ex_fc_a :: linear where
  "ex_fc_a = \<lparr>in_features = 2, out_features = 3, weight = [[1, 0], [0, 1], [1, -1]], bias = [0, 0, 5]\<rparr>"
definition ex_ffwd :: FFWDNet where
  "ex_ffwd = \<lparr>ffwd_net = [ex_id2], ffwd_fc_v = ex_fc_v, ffwd_fc_a = ex_fc_a\<rparr>"
definition ex_priv3 :: "real tensor" where "ex_priv3 = \<lparr>sizes = [1, 2, 2], vals = [1, 2, 3, 4]\<rparr>"
definition ex_legal3 :: "real tensor" where "ex_legal3 = \<lparr>sizes = [1, 2, 3], vals = [1, 0, 0, 0, 1, 1]\<rparr>"
definition ex_action3 :: "nat tensor" where "ex_action3 = \<lparr>sizes = [1, 2], vals = [0, 1]\<rparr>"
definition ex_priv2 :: "real tensor" where "ex_priv2 = \<lparr>sizes = [2, 2], vals = [1, 2, 3, 4]\<rparr>"
definition ex_legal2 :: "real tensor" where "ex_legal2 = \<lparr>sizes = [2, 3], vals = [1, 0, 0, 0, 1, 1]\<rparr>"
definition ex_action2 :: "nat tensor" where "ex_action2 = \<lparr>sizes = [2], vals = [0, 1]\<rparr>"
definition ex_publ :: "real tensor" where "ex_publ = \<lparr>sizes = [0], vals = []\<rparr>"

text \<open>
  A feed-forward network whose layers pass the input on and whose heads answer with their
  biases: the value \<open>2\<^sup>2\<^sup>6\<close> and the advantages \<open>0, 0, -24\<close>.  Of the three actions only the
  last is legal.
\<close>

definition ex_pass :: linear where
  "ex_pass = \<lparr>in_features = 1, out_features = 1, weight = [[1]], bias = [0]\<rparr>"
definition ex_net32 :: FFWDNet where
  "ex_net32 = \<lparr>ffwd_net = [ex_pass, ex_pass, ex_pass],
     ffwd_fc_v = \<lparr>in_features = 1, out_features = 1, weight = [[0]], bias = [67108864]\<rparr>,
     ffwd_fc_a = \<lparr>in_features = 1, out_features = 3, weight = [[0], [0], [0]], bias = [0, 0, -24]\<rparr>\<rparr>"
definition ex_priv32 :: "real tensor" where "ex_priv32 = \<lparr>sizes = [1, 1, 1], vals = [1]\<rparr>"
definition ex_legal32 :: "real tensor" where "ex_legal32 = \<lparr>sizes = [1, 1, 3], vals = [0, 0, 1]\<rparr>"
definition ex_action32 :: "nat tensor" where "ex_action32 = \<lparr>sizes = [1, 1], vals = [2]\<rparr>"


section \<open>Basic facts\<close>

lemmas ex_defs = ex_v_def ex_a_def ex_l_def ex_id2_def ex_fc_v_def ex_fc_a_def ex_ffwd_def
  ex_priv3_def ex_legal3_def ex_action3_def ex_priv2_def ex_legal2_def ex_action2_def ex_publ_def

lemmas eval_defs = FFWDNet_forward_def ebind_def Linear_def linear_row_def dot_def row_def ReLU_def
  duel_def mean2_def gather2_def greedy_head_def argmax_list_def dim_def Let_def upt_rec

lemma ebind_Inr_iff: "ebind m f = Inr y \<longleftrightarrow> (\<exists>x. m = Inr x \<and> f x = Inr y)"
  by (cases m) (simp_all add: ebind_def)

lemma row_nth: "k < d \<Longrightarrow> n * d + d \<le> length xs \<Longrightarrow> row d xs n ! k = xs ! (n * d + k)"
  by (simp add: row_def)

lemma length_row: "n * d + d \<le> length xs \<Longrightarrow> length (row d xs n) = d"
  by (simp add: row_def)

lemma sum_list_row:
  fixes xs :: "real list"
  assumes "n * d + d \<le> length xs"
  shows "sum_list (row d xs n) = (\<Sum>k<d. xs ! (n * d + k))"
proof -
  have "sum_list (row d xs n) = (\<Sum>k = 0..<length (row d xs n). row d xs n ! k)"
    by (rule sum_list_sum_nth)
  also have "\<dots> = (\<Sum>k = 0..<d. xs ! (n * d + k))"
    using assms by (intro sum.cong) (simp_all add: length_row row_nth)
  finally show ?thesis by (simp add: lessThan_atLeast0)
qed

lemma length3E:
  assumes "length xs = 3"
  obtains a b c where "xs = [a, b, c]"
  using assms by (auto simp: numeral_3_eq_3 length_Suc_conv)

lemma div_mult_row_bound:
  fixes j d n :: nat
  assumes "j < n * d"
  shows "j div d * d + d \<le> n * d"
proof -
  have d: "0 < d" using assms by (cases d) auto
  have "j div d < n" using assms d by (simp add: less_mult_imp_div_less)
  then have "Suc (j div d) \<le> n" by simp
  then have "Suc (j div d) * d \<le> n * d" by (rule mult_le_mono1)
  then show ?thesis by simp
qed

section \<open>The dueling head subtracts a mean over all actions\<close>

lemma duel_ex: "duel ex_v ex_a ex_l = Inr \<lparr>sizes = [1, 1, 2], vals = [1, -1]\<rparr>"
  by (simp add: ex_defs eval_defs)

lemma duel_legal_mean_ex: "duel_legal_mean ex_v ex_a ex_l = \<lparr>sizes = [1, 1, 2], vals = [0, -2]\<rparr>"
  by (simp add: duel_legal_mean_def ex_defs eval_defs)

text \<open>
  C5, as stated, fails.  With one legal action of advantage 2 and one illegal action, \<open>duel\<close>
  subtracts \<open>(2 + 0) / 2 = 1\<close>, the sum of the masked advantages over the number of all
  actions; the mean over the legal actions alone would be 2.
\<close>

theorem duel_not_legal_mean: "duel ex_v ex_a ex_l \<noteq> Inr (duel_legal_mean ex_v ex_a ex_l)"
  by (simp add: duel_ex duel_legal_mean_ex)

text \<open>
  C5, amended: whenever \<open>duel\<close> returns, every entry of \<open>q\<close> is the value of its row plus the
  masked advantage minus the sum of the row's masked advantages divided by the number of
  all actions \<open>d\<close>, legal or not: an illegal action adds zero to the sum and still counts in
  the denominator.
\<close>

theorem duel_mean_all_actions:
  assumes ok: "duel v a legal_move = Inr q"
      and wa: "wf_tensor a" and wl: "wf_tensor legal_move"
      and j: "j < length (vals q)"
  shows "vals q ! j = vals v ! (j div (sizes a ! 2)) + vals a ! j * vals legal_move ! j
           - (\<Sum>k<sizes a ! 2. vals a ! (j div (sizes a ! 2) * (sizes a ! 2) + k)
                               * vals legal_move ! (j div (sizes a ! 2) * (sizes a ! 2) + k))
             / real (sizes a ! 2)"
proof -
  define d where "d = sizes a ! 2"
  define n where "n = sizes a ! 0 * sizes a ! 1"
  define legal_a where "legal_a = map2 (*) (vals a) (vals legal_move)"
  from ok have sz: "sizes a = sizes legal_move" and d3: "dim legal_move = 3"
    and q: "q = \<lparr>sizes = sizes a,
             vals = map (\<lambda>j. vals v ! (j div d) + legal_a ! j - mean2 d legal_a (j div d)) [0..<n * d]\<rparr>"
    by (auto simp: duel_def Let_def d_def n_def legal_a_def split: if_splits)
  from d3 sz have "length (sizes a) = 3" by (simp add: dim_def)
  then obtain s b e where s: "sizes a = [s, b, e]" by (rule length3E)
  have sl: "sizes legal_move = [s, b, e]" using sz s by simp
  have len: "length (vals a) = n * d" "length (vals legal_move) = n * d"
    using wa wl by (simp_all add: wf_tensor_def n_def d_def s sl)
  then have ll: "length legal_a = n * d" by (simp add: legal_a_def)
  from j q have jn: "j < n * d" by simp
  have la: "\<And>i. i < n * d \<Longrightarrow> legal_a ! i = vals a ! i * vals legal_move ! i"
    using len by (simp add: legal_a_def)
  have bnd: "j div d * d + d \<le> length legal_a" using div_mult_row_bound[OF jn] ll by simp
  have "mean2 d legal_a (j div d) = (\<Sum>k<d. legal_a ! (j div d * d + k)) / real d"
    by (simp add: mean2_def sum_list_row[OF bnd])
  also have "(\<Sum>k<d. legal_a ! (j div d * d + k))
      = (\<Sum>k<d. vals a ! (j div d * d + k) * vals legal_move ! (j div d * d + k))"
  proof (rule sum.cong)
    fix k assume "k \<in> {..<d}"
    then have "j div d * d + k < n * d" using bnd ll by simp
    then show "legal_a ! (j div d * d + k)
        = vals a ! (j div d * d + k) * vals legal_move ! (j div d * d + k)"
      by (rule la)
  qed simp
  finally have m: "mean2 d legal_a (j div d)
      = (\<Sum>k<d. vals a ! (j div d * d + k) * vals legal_move ! (j div d * d + k)) / real d" .
  show ?thesis using jn q m la[OF jn] by (simp add: d_def[symmetric])
qed

theorem duel_mean_all_actions_witness:
  "duel ex_v ex_a ex_l = Inr \<lparr>sizes = [1, 1, 2], vals = [1, -1]\<rparr> \<and> wf_tensor ex_a \<and> wf_tensor ex_l
   \<and> (1::nat) < length (vals \<lparr>sizes = [1, 1, 2], vals = [1, -1::real]\<rparr>)
   \<and> vals \<lparr>sizes = [1, 1, 2], vals = [1, -1::real]\<rparr> ! 1 = 0 + 4 * 0 - (2 * 1 + 4 * 0) / 2"
proof -
  have w: "wf_tensor ex_a" "wf_tensor ex_l" by (simp_all add: wf_tensor_def ex_defs)
  have j: "(1::nat) < length (vals \<lparr>sizes = [1, 1, 2], vals = [1, -1::real]\<rparr>)" by simp
  from duel_mean_all_actions[OF duel_ex w j] show ?thesis using duel_ex w by simp
qed

section \<open>The greedy action in binary32\<close>

lemma bits_eq:
  assumes "2 ^ k \<le> n" "n < 2 ^ Suc k"
  shows "bits n = Suc k"
  using assms
proof (induction k arbitrary: n)
  case 0
  then have "n = 1" by simp
  then show ?case by (simp add: bits.simps)
next
  case (Suc k)
  have "2 ^ k \<le> n div 2" using Suc.prems(1) by simp
  moreover have "n div 2 < 2 ^ Suc k" using Suc.prems(2) by simp
  ultimately have "bits (n div 2) = Suc k" by (rule Suc.IH)
  moreover have "n \<noteq> 0"
  proof -
    have "0 < (2::nat) ^ Suc k" by simp
    with Suc.prems(1) show ?thesis by linarith
  qed
  ultimately show ?case by (subst bits.simps) simp
qed

lemma f32_0: "f32 0 = 0"
  by (simp add: f32_def)

lemma f32_24: "f32 24 = 24"
proof -
  have "bits (nat \<lfloor>\<bar>24 :: real\<bar> * 2 ^ 149\<rfloor>) = Suc 153"
    by (rule bits_eq) simp_all
  then show ?thesis by (simp add: f32_def round_even_def Let_def)
qed

text \<open>Between \<open>2\<^sup>2\<^sup>6\<close> and \<open>2\<^sup>2\<^sup>7\<close> the binary32 numbers are 8 apart, below \<open>2\<^sup>2\<^sup>6\<close> they are 4 apart.\<close>

lemma f32_above: "f32 67108873 = 67108872"
proof -
  have "bits (nat \<lfloor>\<bar>67108873 :: real\<bar> * 2 ^ 149\<rfloor>) = Suc 175"
    by (rule bits_eq) simp_all
  then show ?thesis by (simp add: f32_def round_even_def Let_def)
qed

lemma f32_below: "f32 67108849 = 67108848"
proof -
  have "bits (nat \<lfloor>\<bar>67108849 :: real\<bar> * 2 ^ 149\<rfloor>) = Suc 174"
    by (rule bits_eq) simp_all
  then show ?thesis by (simp add: f32_def round_even_def Let_def)
qed

lemma Linear_dim: "Linear L t = Inr y \<Longrightarrow> dim y = dim t"
  by (auto simp: Linear_def dim_def split: if_splits)

lemma Sequential_dim: "Sequential Ls t = Inr y \<Longrightarrow> dim y = dim t"
proof (induction Ls arbitrary: t)
  case Nil
  then show ?case by simp
next
  case (Cons L Ls)
  from Cons.prems obtain z where z: "Linear L t = Inr z" and r: "Sequential Ls (ReLU z) = Inr y"
    by (auto simp: ebind_Inr_iff)
  have "dim y = dim (ReLU z)" using r by (rule Cons.IH)
  also have "\<dots> = dim z" by (simp add: ReLU_def dim_def)
  also have "\<dots> = dim t" using z by (rule Linear_dim)
  finally show ?case .
qed

lemma duel_Inr:
  assumes "duel v a l = Inr q"
  shows "sizes a = sizes l" "dim l = 3" "sizes q = sizes l"
    "length (vals q) = sizes l ! 0 * sizes l ! 1 * sizes l ! 2"
  using assms by (auto simp: duel_def Let_def split: if_splits)

lemma duel_wf:
  assumes "duel v a l = Inr q"
  shows "wf_tensor q"
proof -
  from duel_Inr[OF assms] have "length (sizes l) = 3" and s: "sizes q = sizes l"
    and len: "length (vals q) = sizes l ! 0 * sizes l ! 1 * sizes l ! 2"
    by (simp_all add: dim_def)
  then obtain s b e where "sizes l = [s, b, e]" by (auto elim: length3E)
  then show ?thesis using s len by (simp add: wf_tensor_def)
qed

lemma duel_fails_unless_3d:
  assumes "dim a \<noteq> 3"
  shows "duel v a l = Inl AssertSizeEq \<or> duel v a l = Inl AssertDim3"
  using assms by (auto simp: duel_def dim_def)

lemma ex32_heads:
  "Sequential (ffwd_net ex_net32) ex_priv32 = Inr ex_priv32"
  "Linear (ffwd_fc_a ex_net32) ex_priv32 = Inr \<lparr>sizes = [1, 1, 3], vals = [0, 0, -24]\<rparr>"
  "Linear (ffwd_fc_v ex_net32) ex_priv32 = Inr \<lparr>sizes = [1, 1, 1], vals = [67108864]\<rparr>"
  by (simp_all add: ex_net32_def ex_pass_def ex_priv32_def ebind_def Linear_def linear_row_def
      dot_def row_def ReLU_def upt_rec)

lemma ex32_duel:
  "duel \<lparr>sizes = [1, 1, 1], vals = [67108864]\<rparr> \<lparr>sizes = [1, 1, 3], vals = [0, 0, -24]\<rparr> ex_legal32
   = Inr \<lparr>sizes = [1, 1, 3], vals = [67108872, 67108872, 67108848]\<rparr>"
  by (simp add: ex_legal32_def duel_def mean2_def row_def dim_def Let_def upt_rec)

lemma ex32_greedy:
  "greedy_head \<lparr>sizes = [1, 1, 3], vals = [67108872, 67108872, 67108848]\<rparr> ex_legal32
   = Inr \<lparr>sizes = [1, 1], vals = [0]\<rparr>"
  by (simp add: ex_legal32_def greedy_head_def dim_def Let_def row_def argmax_list_def
      f32_0 f32_24 f32_above f32_below)

text \<open>
  C4 at a network whose value head answers \<open>2\<^sup>2\<^sup>6\<close> and whose advantages are \<open>0, 0, -24\<close>,
  with the last action the only legal one.  In \<open>duel\<close> every number is a binary32 number:
  the masked advantages are \<open>0, 0, -24\<close>, their mean is \<open>-8\<close>, and \<open>q\<close> is
  \<open>2\<^sup>2\<^sup>6 + 8, 2\<^sup>2\<^sup>6 + 8, 2\<^sup>2\<^sup>6 - 16\<close>.  At this size the binary32 numbers are 8 and 4 apart,
  so \<open>1 + q\<close> rounds back to \<open>q\<close>: after \<open>q.min()\<close> is subtracted the legal action is left
  with 0, the product with the mask is 0 everywhere, and \<open>argmax\<close> returns the first
  position.  \<open>forward\<close> returns the greedy action 0, where the mask is 0, although action 2
  is legal.
\<close>

theorem greedy_action_illegal_in_binary32:
  "FFWDNet_forward ex_net32 ex_priv32 ex_publ ex_legal32 ex_action32 []
     = Inr (\<lparr>sizes = [1, 1], vals = [67108848]\<rparr>, \<lparr>sizes = [1, 1], vals = [0]\<rparr>,
            \<lparr>sizes = [1, 1, 3], vals = [67108872, 67108872, 67108848]\<rparr>, ex_priv32)
   \<and> vals ex_legal32 = [0, 0, 1]"
proof -
  have g: "gather2 \<lparr>sizes = [1, 1, 3], vals = [67108872, 67108872, 67108848]\<rparr> ex_action32
      = Inr \<lparr>sizes = [1, 1], vals = [67108848]\<rparr>"
    by (simp add: gather2_def ex_action32_def)
  have d: "dim ex_priv32 = 3" by (simp add: ex_priv32_def dim_def)
  have "FFWDNet_forward ex_net32 ex_priv32 ex_publ ex_legal32 ex_action32 []
     = Inr (\<lparr>sizes = [1, 1], vals = [67108848]\<rparr>, \<lparr>sizes = [1, 1], vals = [0]\<rparr>,
            \<lparr>sizes = [1, 1, 3], vals = [67108872, 67108872, 67108848]\<rparr>, ex_priv32)"
    using ex32_heads ex32_duel g ex32_greedy by (simp add: FFWDNet_forward_def d ebind_def)
  moreover have "vals ex_legal32 = [0, 0, 1]" by (simp add: ex_legal32_def)
  ultimately show ?thesis by simp
qed

section \<open>The two-dimensional path of FFWDNet.forward\<close>

text \<open>
  C10.  The entry assertion of \<open>FFWDNet.forward\<close> lets a two-dimensional \<open>priv_s\<close> pass.  The
  layers keep the rank, so the advantage that reaches \<open>duel\<close> is two-dimensional, and \<open>duel\<close>
  raises: on its assertion \<open>legal_move.dim() == 3\<close> when \<open>legal_move\<close> has the shape of the
  advantage, on its size assertion otherwise.  No such call returns a result.
\<close>

theorem FFWDNet_forward_2d_never_returns:
  assumes "dim priv_s = 2"
  shows "(\<exists>e. FFWDNet_forward m priv_s publ_s legal_move action hid = Inl e)
       \<and> (\<forall>ou a v. Sequential (ffwd_net m) priv_s = Inr ou \<and> Linear (ffwd_fc_a m) ou = Inr a
             \<and> Linear (ffwd_fc_v m) ou = Inr v \<and> sizes a = sizes legal_move
            \<longrightarrow> FFWDNet_forward m priv_s publ_s legal_move action hid = Inl AssertDim3)
       \<and> (\<forall>ou a v. Sequential (ffwd_net m) priv_s = Inr ou \<and> Linear (ffwd_fc_a m) ou = Inr a
             \<and> Linear (ffwd_fc_v m) ou = Inr v \<and> sizes a \<noteq> sizes legal_move
            \<longrightarrow> FFWDNet_forward m priv_s publ_s legal_move action hid = Inl AssertSizeEq)"
proof (intro conjI allI impI)
  show "\<exists>e. FFWDNet_forward m priv_s publ_s legal_move action hid = Inl e"
  proof (cases "FFWDNet_forward m priv_s publ_s legal_move action hid")
    case (Inl e)
    then show ?thesis by blast
  next
    case (Inr r)
    then obtain ou a v q where ou: "Sequential (ffwd_net m) priv_s = Inr ou"
      and a: "Linear (ffwd_fc_a m) ou = Inr a" and q: "duel v a legal_move = Inr q"
      by (auto simp: FFWDNet_forward_def ebind_Inr_iff split: if_splits)
    have "dim a = 2" using Linear_dim[OF a] Sequential_dim[OF ou] assms by simp
    then have "duel v a legal_move = Inl AssertSizeEq \<or> duel v a legal_move = Inl AssertDim3"
      by (intro duel_fails_unless_3d) simp
    with q show ?thesis by simp
  qed
next
  fix ou a v
  assume h: "Sequential (ffwd_net m) priv_s = Inr ou \<and> Linear (ffwd_fc_a m) ou = Inr a
             \<and> Linear (ffwd_fc_v m) ou = Inr v \<and> sizes a = sizes legal_move"
  then have "dim a = 2"
    using Linear_dim[of "ffwd_fc_a m" ou a] Sequential_dim[of "ffwd_net m" priv_s ou] assms by simp
  with h have "duel v a legal_move = Inl AssertDim3" by (simp add: duel_def dim_def)
  with h assms show "FFWDNet_forward m priv_s publ_s legal_move action hid = Inl AssertDim3"
    by (simp add: FFWDNet_forward_def ebind_def)
next
  fix ou a v
  assume h: "Sequential (ffwd_net m) priv_s = Inr ou \<and> Linear (ffwd_fc_a m) ou = Inr a
             \<and> Linear (ffwd_fc_v m) ou = Inr v \<and> sizes a \<noteq> sizes legal_move"
  then have "duel v a legal_move = Inl AssertSizeEq" by (simp add: duel_def)
  with h assms show "FFWDNet_forward m priv_s publ_s legal_move action hid = Inl AssertSizeEq"
    by (simp add: FFWDNet_forward_def ebind_def)
qed

lemma ex_seq2: "Sequential (ffwd_net ex_ffwd) ex_priv2 = Inr ex_priv2"
  by (simp add: ex_defs eval_defs)

lemma ex_a2: "Linear (ffwd_fc_a ex_ffwd) ex_priv2 = Inr \<lparr>sizes = [2, 3], vals = [1, 2, 4, 3, 4, 4]\<rparr>"
  by (simp add: ex_defs eval_defs)

lemma ex_v2: "Linear (ffwd_fc_v ex_ffwd) ex_priv2 = Inr \<lparr>sizes = [2, 1], vals = [3, 7]\<rparr>"
  by (simp add: ex_defs eval_defs)

theorem FFWDNet_forward_2d_never_returns_witness:
  "dim ex_priv2 = 2 \<and> FFWDNet_forward ex_ffwd ex_priv2 ex_publ ex_legal2 ex_action2 [] = Inl AssertDim3"
proof -
  have d: "dim ex_priv2 = 2" by (simp add: ex_priv2_def dim_def)
  have s: "sizes \<lparr>sizes = [2, 3], vals = [1, 2, 4, 3, 4, 4::real]\<rparr> = sizes ex_legal2"
    by (simp add: ex_legal2_def)
  from FFWDNet_forward_2d_never_returns[OF d, of ex_ffwd ex_publ ex_legal2 ex_action2 "[]"]
    ex_seq2 ex_a2 ex_v2 s d
  show ?thesis by blast
qed

section \<open>The builder in closed form\<close>

lemma assign_rows_Inr:
  assumes "a \<le> b" "b \<le> length xs" "length idx = b - a" "list_all (\<lambda>k. k < length xs) idx"
  shows "assign_rows xs a b idx = Inr (take a xs @ map ((!) xs) idx @ drop b xs)"
  using assms by (simp add: assign_rows_def index_rows_def assign_slice_def ebind_def)

lemma assign_rows_nth:
  assumes "a \<le> b" "b \<le> length xs" "length idx = b - a" "r < length xs"
  shows "(take a xs @ map ((!) xs) idx @ drop b xs) ! r
       = (if a \<le> r \<and> r < b then xs ! (idx ! (r - a)) else xs ! r)"
  using assms by (auto simp: nth_append min_def)

lemma find_good:
  assumes "good_steps n lo sts" "find (\<lambda>(a, b, idx). a \<le> r \<and> r < b) sts = Some (a, b, idx)"
  shows "lo \<le> a \<and> a \<le> r \<and> r < b \<and> b \<le> n \<and> length idx = b - a \<and> a \<le> idx ! (r - a) \<and> idx ! (r - a) < b"
  using assms
proof (induction sts arbitrary: lo)
  case Nil
  then show ?case by simp
next
  case (Cons st sts)
  obtain a' b' idx' where st: "st = (a', b', idx')" by (cases st) auto
  show ?case
  proof (cases "a' \<le> r \<and> r < b'")
    case True
    with Cons.prems st have eq: "a = a'" "b = b'" "idx = idx'" by simp_all
    from Cons.prems(1) st have g: "lo \<le> a'" "b' \<le> n" "length idx' = b' - a'"
      "list_all (\<lambda>x. a' \<le> x \<and> x < b') idx'" by simp_all
    from True g have "r - a' < length idx'" by arith
    with g(4) have "a' \<le> idx' ! (r - a') \<and> idx' ! (r - a') < b'" by (simp add: list_all_length)
    with True g show ?thesis by (simp add: eq)
  next
    case False
    with Cons.prems st have f: "find (\<lambda>(a, b, idx). a \<le> r \<and> r < b) sts = Some (a, b, idx)" by simp
    from Cons.prems(1) st have g: "good_steps n b' sts" "lo \<le> a'" "a' \<le> b'" by simp_all
    from Cons.IH[OF g(1) f] g show ?thesis by simp
  qed
qed

lemma src_Some:
  "find (\<lambda>(a, b, idx). a \<le> r \<and> r < b) sts = Some (a, b, idx) \<Longrightarrow> src sts r = idx ! (r - a)"
  unfolding src_def by simp

lemma src_None:
  "find (\<lambda>(a, b, idx). a \<le> r \<and> r < b) sts = None \<Longrightarrow> src sts r = r"
  unfolding src_def by simp

lemma src_Cons:
  "src ((a, b, idx) # sts) r = (if a \<le> r \<and> r < b then idx ! (r - a) else src sts r)"
  unfolding src_def by simp

lemma src_bounds:
  assumes "good_steps n lo sts" "r < n"
  shows "src sts r < n" and "r < lo \<Longrightarrow> src sts r = r" and "lo \<le> r \<Longrightarrow> lo \<le> src sts r"
proof -
  show "src sts r < n"
  proof (cases "find (\<lambda>(a, b, idx). a \<le> r \<and> r < b) sts")
    case None
    then show ?thesis using assms by (simp add: src_None)
  next
    case (Some st)
    obtain a b idx where st: "st = (a, b, idx)" by (cases st) auto
    from find_good[OF assms(1) Some[unfolded st]] show ?thesis
      by (simp add: src_Some[OF Some[unfolded st]])
  qed
  show "r < lo \<Longrightarrow> src sts r = r"
  proof (cases "find (\<lambda>(a, b, idx). a \<le> r \<and> r < b) sts")
    case None
    then show ?thesis by (simp add: src_None)
  next
    case (Some st)
    assume lt: "r < lo"
    obtain a b idx where st: "st = (a, b, idx)" by (cases st) auto
    from find_good[OF assms(1) Some[unfolded st]] lt show ?thesis by simp
  qed
  show "lo \<le> r \<Longrightarrow> lo \<le> src sts r"
  proof (cases "find (\<lambda>(a, b, idx). a \<le> r \<and> r < b) sts")
    case None
    assume "lo \<le> r"
    with None show ?thesis by (simp add: src_None)
  next
    case (Some st)
    obtain a b idx where st: "st = (a, b, idx)" by (cases st) auto
    from find_good[OF assms(1) Some[unfolded st]] show ?thesis
      by (simp add: src_Some[OF Some[unfolded st]])
  qed
qed

lemma ebind_Inl [simp]: "ebind (Inl e) f = Inl e"
  by (simp add: ebind_def)

lemma ebind_Inr [simp]: "ebind (Inr x) f = f x"
  by (simp add: ebind_def)

lemma fold_assign_Inl:
  "fold (\<lambda>(a, b, idx) acc. ebind acc (\<lambda>p. assign_rows p a b idx)) sts (Inl e) = Inl e"
  by (induction sts) auto

lemma run_assign_Cons:
  "run_assign ((a, b, idx) # sts) p = ebind (assign_rows p a b idx) (run_assign sts)"
  by (cases "assign_rows p a b idx") (simp_all add: run_assign_def fold_assign_Inl)

lemma run_assign_src:
  assumes "good_steps (length p) lo sts"
  shows "run_assign sts p = Inr (map (\<lambda>r. p ! src sts r) [0..<length p])"
  using assms
proof (induction sts arbitrary: p lo)
  case Nil
  then show ?case by (simp add: run_assign_def src_None map_nth)
next
  case (Cons st sts)
  obtain a b idx where st: "st = (a, b, idx)" by (cases st) auto
  from Cons.prems st have g: "lo \<le> a" "a \<le> b" "b \<le> length p" "length idx = b - a"
    "list_all (\<lambda>x. a \<le> x \<and> x < b) idx" "good_steps (length p) b sts" by simp_all
  have inr: "list_all (\<lambda>k. k < length p) idx"
    using g(3,5) by (auto simp: list_all_iff)
  define p1 where "p1 = take a p @ map ((!) p) idx @ drop b p"
  have l1: "length p1 = length p" using g by (simp add: p1_def)
  have a1: "assign_rows p a b idx = Inr p1"
    unfolding p1_def using g(2,3,4) inr by (rule assign_rows_Inr)
  have p1n: "\<And>r. r < length p \<Longrightarrow> p1 ! r = (if a \<le> r \<and> r < b then p ! (idx ! (r - a)) else p ! r)"
    unfolding p1_def using g(2,3,4) by (rule assign_rows_nth)
  have ih: "run_assign sts p1 = Inr (map (\<lambda>r. p1 ! src sts r) [0..<length p1])"
    using g(6) l1 by (intro Cons.IH[where lo = b]) simp
  have "map (\<lambda>r. p1 ! src sts r) [0..<length p1] = map (\<lambda>r. p ! src (st # sts) r) [0..<length p]"
  proof (rule map_cong[OF _ ], simp add: l1)
    fix r assume "r \<in> set [0..<length p]"
    then have r: "r < length p" by simp
    have sb: "src sts r < length p" using src_bounds(1)[OF g(6) r] .
    show "p1 ! src sts r = p ! src (st # sts) r"
    proof (cases "a \<le> r \<and> r < b")
      case True
      then have "src sts r = r" using src_bounds(2)[OF g(6) r] by simp
      then show ?thesis using True p1n[OF r] by (simp add: src_Cons st)
    next
      case False
      show ?thesis
      proof (cases "r < b")
        case True
        with False have ra: "r < a" by simp
        then have "src sts r = r" using src_bounds(2)[OF g(6) r] g(2) by simp
        then show ?thesis using ra p1n[OF r] by (simp add: src_Cons st)
      next
        case nb: False
        then have "b \<le> src sts r" using src_bounds(3)[OF g(6) r] by simp
        then have "p1 ! src sts r = p ! src sts r" using p1n[OF sb] by simp
        then show ?thesis using nb by (simp add: src_Cons st)
      qed
    qed
  qed
  then show ?case by (simp add: st run_assign_Cons a1 ih)
qed

lemma hand_perm_closed:
  assumes "length cp = 25"
  shows "hand_perm cp = Inr (hand_closed cp)"
  using assms by (simp add: hand_perm_def hand_closed_def assign_slice_def upt_rec)

lemma ebind_assoc: "ebind (ebind m f) g = ebind m (\<lambda>x. ebind (f x) g)"
  by (cases m) simp_all

lemma run_assign_Nil [simp]: "run_assign [] p = Inr p"
  by (simp add: run_assign_def)

lemma run_assign_Cons_fun:
  "run_assign ((a, b, idx) # sts) = (\<lambda>p. ebind (assign_rows p a b idx) (run_assign sts))"
  by (rule ext) (rule run_assign_Cons)

lemma run_assign_Nil_fun: "run_assign [] = Inr"
  by (rule ext) simp

lemma run_assign_append_fun:
  "run_assign (xs @ ys) = (\<lambda>p. ebind (run_assign xs p) (run_assign ys))"
proof (induction xs)
  case Nil
  show ?case by (simp add: run_assign_Nil_fun)
next
  case (Cons st xs)
  obtain a b idx where st: "st = (a, b, idx)" by (cases st) auto
  show ?case by (simp add: st run_assign_Cons_fun ebind_assoc Cons.IH)
qed

lemma fold_ebind_Inl: "fold (\<lambda>i acc. ebind acc (f i)) is (Inl e) = Inl e"
  by (induction "is") simp_all

lemma ebind_Inr_id [simp]: "ebind m Inr = m"
  by (cases m) simp_all

lemma V0_fold:
  "fold (\<lambda>i acc. ebind acc (V0_step symm cp i)) is acc
   = ebind acc (run_assign (concat (map (\<lambda>i. [(308 + 35 * i, 333 + 35 * i, map (\<lambda>c. c + 308 + 35 * i) cp),
                          (333 + 35 * i, 338 + 35 * i, map (\<lambda>s. 333 + 35 * i + s) symm)]) is)))"
proof (induction "is" arbitrary: acc)
  case Nil
  show ?case by (cases acc) simp_all
next
  case (Cons i "is")
  show ?case
  proof (cases acc)
    case (Inl e)
    then show ?thesis by (simp add: fold_ebind_Inl)
  next
    case (Inr b)
    then show ?thesis
      by (simp add: Cons.IH) (simp add: run_assign_Cons_fun V0_step_def ebind_assoc)
  qed
qed

lemma build_run_assign:
  assumes "card_perm symm = Inr cp" "hand_perm cp = Inr hp" "discards_perm symm = Inr dp"
  shows "build_input_perm sad symm p = run_assign (steps sad symm cp hp dp) p"
  using assms
  by (cases sad)
    (simp_all add: build_input_perm_def steps_def V0_fold run_assign_append_fun
       run_assign_Cons_fun run_assign_Nil_fun ebind_assoc)

lemma card_closed_range:
  assumes "length (argsort symm) = 5" "list_all (\<lambda>s. s < 5) (argsort symm)"
  shows "length (card_closed symm) = 25" "list_all (\<lambda>c. c < 25) (card_closed symm)"
proof -
  show "length (card_closed symm) = 25" by (simp add: card_closed_def)
  have "\<And>t. t < 25 \<Longrightarrow> 5 * (argsort symm ! (t div 5)) + t mod 5 < 25"
  proof -
    fix t :: nat assume "t < 25"
    then have "t div 5 < 5" by simp
    then have "argsort symm ! (t div 5) < 5" using assms by (simp add: list_all_length)
    moreover have "t mod 5 < 5" by simp
    ultimately show "5 * (argsort symm ! (t div 5)) + t mod 5 < 25" by linarith
  qed
  then show "list_all (\<lambda>c. c < 25) (card_closed symm)"
    by (simp add: card_closed_def list_all_iff)
qed

lemma discards_closed_range:
  assumes "length (argsort symm) = 5" "list_all (\<lambda>s. s < 5) (argsort symm)"
  shows "length (discards_closed symm) = 50"
    "list_all (\<lambda>x. 203 \<le> x \<and> x < 253) (discards_closed symm)"
proof -
  show "length (discards_closed symm) = 50" by (simp add: discards_closed_def)
  have "\<And>t. t < 50 \<Longrightarrow> 203 + 10 * (argsort symm ! (t div 10)) + t mod 10 < 253"
  proof -
    fix t :: nat assume "t < 50"
    then have "t div 10 < 5" by simp
    then have "argsort symm ! (t div 10) < 5" using assms by (simp add: list_all_length)
    moreover have "t mod 10 < 10" by simp
    ultimately show "203 + 10 * (argsort symm ! (t div 10)) + t mod 10 < 253" by linarith
  qed
  then show "list_all (\<lambda>x. 203 \<le> x \<and> x < 253) (discards_closed symm)"
    by (simp add: discards_closed_def list_all_iff)
qed

lemma hand_closed_range:
  assumes "length cp = 25" "list_all (\<lambda>c. c < 25) cp"
  shows "length (hand_closed cp) = 125" "list_all (\<lambda>c. c < 125) (hand_closed cp)"
  using assms by (auto simp: hand_closed_def upt_rec list_all_iff length_concat)

lemma good_steps_steps:
  assumes "length symm = 5" "list_all (\<lambda>s. s < 5) symm"
    "length cp = 25" "list_all (\<lambda>c. c < 25) cp"
    "length hp = 125" "list_all (\<lambda>c. c < 125) hp"
    "length dp = 50" "list_all (\<lambda>x. 203 \<le> x \<and> x < 253) dp"
    "(if sad then 711 else 653) \<le> n"
  shows "good_steps n 0 (steps sad symm cp hp dp)"
  using assms by (cases sad) (auto simp: steps_def upt_rec list_all_iff)

lemma build_input_perm_src:
  assumes ok: "colour_perm_ok symm" and n: "(if sad then 711 else 653) \<le> length p"
  shows "build_input_perm sad symm p = Inr (map (\<lambda>r. p ! src (isteps sad symm) r) [0..<length p])"
proof -
  from ok have s: "length symm = 5" "list_all (\<lambda>s. s < 5) symm"
    and i: "length (argsort symm) = 5" "list_all (\<lambda>s. s < 5) (argsort symm)"
    and c: "card_perm symm = Inr (card_closed symm)"
    and d: "discards_perm symm = Inr (discards_closed symm)"
    by (simp_all add: colour_perm_ok_def)
  note cr = card_closed_range[OF i]
  note hr = hand_closed_range[OF cr]
  note dr = discards_closed_range[OF i]
  have h: "hand_perm (card_closed symm) = Inr (hand_closed (card_closed symm))"
    using cr(1) by (rule hand_perm_closed)
  have g: "good_steps (length p) 0 (isteps sad symm)"
    unfolding isteps_def using s cr hr dr n by (rule good_steps_steps)
  show ?thesis
    unfolding build_run_assign[OF c h d] isteps_def[symmetric] using g by (rule run_assign_src)
qed

lemma cyclic_ok: "list_all colour_perm_ok cyclic_symmetries"
  by code_simp

lemma dihedral_ok: "list_all colour_perm_ok dihedral_symmetries"
  by code_simp

lemma eye_nth: "r < n \<Longrightarrow> eye n ! r = unit_row n r"
  by (simp add: eye_def)

lemma isteps_good:
  assumes ok: "colour_perm_ok symm" and n: "(if sad then 711 else 653) \<le> n"
  shows "good_steps n 0 (isteps sad symm)"
proof -
  from ok have s: "length symm = 5" "list_all (\<lambda>s. s < 5) symm"
    and i: "length (argsort symm) = 5" "list_all (\<lambda>s. s < 5) (argsort symm)"
    by (simp_all add: colour_perm_ok_def)
  note cr = card_closed_range[OF i]
  note hr = hand_closed_range[OF cr]
  note dr = discards_closed_range[OF i]
  show ?thesis unfolding isteps_def using s cr hr dr n by (rule good_steps_steps)
qed

lemma input_operator_selection:
  assumes ok: "colour_perm_ok symm" and n: "(if sad then 711 else 653) \<le> n"
  shows "input_operator sad n symm = Inr (selection_matrix n (src (isteps sad symm)))"
proof -
  have len: "length (eye n) = n" by (simp add: eye_def)
  have "input_operator sad n symm = Inr (map (\<lambda>r. eye n ! src (isteps sad symm) r) [0..<n])"
    unfolding input_operator_def using build_input_perm_src[OF ok, of sad "eye n"] n len by simp
  also have "map (\<lambda>r. eye n ! src (isteps sad symm) r) [0..<n] = selection_matrix n (src (isteps sad symm))"
    unfolding selection_matrix_def
  proof (rule map_cong[OF refl])
    fix r assume "r \<in> set [0..<n]"
    then have "r < n" by simp
    then have "src (isteps sad symm) r < n" using src_bounds(1)[OF isteps_good[OF ok n]] by simp
    then show "eye n ! src (isteps sad symm) r = unit_row n (src (isteps sad symm) r)" by (rule eye_nth)
  qed
  finally show ?thesis .
qed

lemma src_single_261:
  assumes "i < 5" "length symm = 5"
  shows "src (isteps sad symm) (261 + i) = 261 + symm ! i"
  using assms
  by (simp add: src_def isteps_def steps_def)

lemma src_hand:
  assumes "t < 125"
  shows "src (isteps sad symm) t = hand_closed (card_closed symm) ! t"
  using assms by (simp add: src_def isteps_def steps_def)

lemma sigma1_ok: "colour_perm_ok sigma1"
  by code_simp

lemma unit_row_neq: "i < n \<Longrightarrow> i \<noteq> j \<Longrightarrow> unit_row n i \<noteq> unit_row n j"
proof
  assume a: "i < n" "i \<noteq> j" "unit_row n i = unit_row n j"
  then have "unit_row n i ! i = unit_row n j ! i" by simp
  with a(1,2) show False by (simp add: unit_row_def)
qed

lemma selection_matrix_nth: "r < n \<Longrightarrow> selection_matrix n f ! r = unit_row n (f r)"
  by (simp add: selection_matrix_def)

text \<open>
  C6 at the second cyclic permutation \<open>\<sigma> = [4,0,1,2,3]\<close>, on the operator of width 658.
  The claim wants row \<open>261 + \<sigma>(0) = 265\<close> to hold the source row \<open>261 + 0\<close>.  The built
  operator holds the source row 264 there: the block is gathered, row \<open>261 + i\<close> holds
  the source row \<open>261 + \<sigma>(i)\<close>.  The card blocks of the same operator are scattered the
  way the claim says: row \<open>5 \<sigma>(0)\<close> holds the source row \<open>5 \<cdot> 0\<close>.
\<close>

theorem single_colour_block_reads_sigma:
  "input_operator False 658 sigma1 = Inr (selection_matrix 658 (src (isteps False sigma1)))
   \<and> selection_matrix 658 (src (isteps False sigma1)) ! (261 + sigma1 ! 0) = unit_row 658 264
   \<and> selection_matrix 658 (src (isteps False sigma1)) ! (261 + sigma1 ! 0) \<noteq> unit_row 658 (261 + 0)
   \<and> selection_matrix 658 (src (isteps False sigma1)) ! (261 + 0) = unit_row 658 (261 + sigma1 ! 0)
   \<and> selection_matrix 658 (src (isteps False sigma1)) ! (5 * (sigma1 ! 0)) = unit_row 658 (5 * 0)"
proof -
  have op: "input_operator False 658 sigma1 = Inr (selection_matrix 658 (src (isteps False sigma1)))"
    by (rule input_operator_selection[OF sigma1_ok]) simp
  have l: "length sigma1 = 5" by (simp add: sigma1_def)
  have s265: "src (isteps False sigma1) 265 = 264"
    using src_single_261[of 4 sigma1 False] l by (simp add: sigma1_def)
  have s261: "src (isteps False sigma1) 261 = 265"
    using src_single_261[of 0 sigma1 False] l by (simp add: sigma1_def)
  have c: "hand_closed (card_closed sigma1) ! 20 = 0" by code_simp
  have s20: "src (isteps False sigma1) 20 = 0"
    using src_hand[of 20 False sigma1] c by simp
  have n: "unit_row 658 264 \<noteq> unit_row 658 261" by (rule unit_row_neq) simp_all
  show ?thesis
    using op s265 s261 s20 n by (simp add: selection_matrix_nth sigma1_def)
qed

section \<open>Products of operators\<close>

lemma unit_row_length [simp]: "length (unit_row n i) = n"
  by (simp add: unit_row_def)

lemma unit_row_nth: "j < n \<Longrightarrow> unit_row n i ! j = (if i = j then 1 else 0)"
  by (simp add: unit_row_def)

lemma sum_list_unit:
  fixes f :: "nat \<Rightarrow> real"
  assumes "a < n"
  shows "(\<Sum>k\<leftarrow>[0..<n]. unit_row n a ! k * f k) = f a"
proof -
  have "(\<Sum>k\<leftarrow>[0..<n]. unit_row n a ! k * f k) = (\<Sum>k\<in>{0..<n}. unit_row n a ! k * f k)"
    by (simp add: interv_sum_list_conv_sum_set_nat)
  also have "\<dots> = (\<Sum>k\<in>{0..<n}. if k = a then f k else 0)"
    by (intro sum.cong) (auto simp: unit_row_nth)
  also have "\<dots> = f a" using assms by simp
  finally show ?thesis .
qed

lemma mat_mul_selection:
  assumes n: "0 < n" and f: "\<And>r. r < n \<Longrightarrow> f r < n"
  shows "mat_mul (selection_matrix n f) (selection_matrix n g) = selection_matrix n (\<lambda>r. g (f r))"
proof -
  have hd: "hd (selection_matrix n g) = unit_row n (g 0)"
    using n by (simp add: selection_matrix_def hd_map upt_conv_Cons)
  have len: "length (selection_matrix n g) = n" by (simp add: selection_matrix_def)
  have "\<And>r. r < n \<Longrightarrow>
      map (\<lambda>j. \<Sum>k\<leftarrow>[0..<n]. unit_row n (f r) ! k * selection_matrix n g ! k ! j) [0..<n]
      = unit_row n (g (f r))"
  proof -
    fix r assume r: "r < n"
    show "map (\<lambda>j. \<Sum>k\<leftarrow>[0..<n]. unit_row n (f r) ! k * selection_matrix n g ! k ! j) [0..<n]
      = unit_row n (g (f r))"
    proof (rule nth_equalityI)
      show "length (map (\<lambda>j. \<Sum>k\<leftarrow>[0..<n]. unit_row n (f r) ! k * selection_matrix n g ! k ! j) [0..<n])
          = length (unit_row n (g (f r)))" by simp
    next
      fix j assume "j < length (map (\<lambda>j. \<Sum>k\<leftarrow>[0..<n]. unit_row n (f r) ! k * selection_matrix n g ! k ! j) [0..<n])"
      then have j: "j < n" by simp
      have "(\<Sum>k\<leftarrow>[0..<n]. unit_row n (f r) ! k * selection_matrix n g ! k ! j)
          = selection_matrix n g ! (f r) ! j"
        using f[OF r] by (rule sum_list_unit)
      also have "\<dots> = unit_row n (g (f r)) ! j"
        using f[OF r] by (simp add: selection_matrix_nth)
      finally show "map (\<lambda>j. \<Sum>k\<leftarrow>[0..<n]. unit_row n (f r) ! k * selection_matrix n g ! k ! j) [0..<n] ! j
          = unit_row n (g (f r)) ! j" using j by simp
    qed
  qed
  then show ?thesis
    unfolding mat_mul_def hd len
    by (simp add: selection_matrix_def)
qed

lemma selection_matrix_neq:
  assumes "r < n" "f r < n" "f r \<noteq> g r"
  shows "selection_matrix n f \<noteq> selection_matrix n g"
proof
  assume "selection_matrix n f = selection_matrix n g"
  then have "selection_matrix n f ! r = selection_matrix n g ! r" by simp
  then have "unit_row n (f r) = unit_row n (g r)" using assms(1) by (simp add: selection_matrix_nth)
  with unit_row_neq[OF assms(2,3)] show False by simp
qed

lemma sigma_ab_ok:
  "colour_perm_ok sigma_a" "colour_perm_ok sigma_b"
  "colour_perm_ok (compose sigma_a sigma_b)" "colour_perm_ok (compose sigma_b sigma_a)"
  by code_simp+

lemma sigma_ab_enumerated:
  "sigma_a \<in> set (tl (permutations colours))" "sigma_b \<in> set (tl (permutations colours))"
  "compose sigma_a sigma_b \<in> set (tl (permutations colours))"
  by code_simp+

text \<open>
  C1 at \<open>\<sigma> = [1,0,2,3,4]\<close> and \<open>\<tau> = [0,2,1,3,4]\<close>, both in the table of
  \<open>EquivariantProjection\<close> (width 658).  The builder returns an operator for \<open>\<sigma>\<close>, for
  \<open>\<tau>\<close> and for both of their compositions, and the product of the operators of \<open>\<sigma>\<close>
  and \<open>\<tau>\<close> is neither: it differs from the operator of \<open>\<sigma> \<circ> \<tau>\<close> in row 261 (a
  single-colour block) and from the operator of \<open>\<tau> \<circ> \<sigma>\<close> in row 0 (a card block).
\<close>

theorem operator_product_is_not_operator_of_composition:
  "input_operator False 658 sigma_a = Inr (selection_matrix 658 (src (isteps False sigma_a)))
   \<and> input_operator False 658 sigma_b = Inr (selection_matrix 658 (src (isteps False sigma_b)))
   \<and> input_operator False 658 (compose sigma_a sigma_b)
       = Inr (selection_matrix 658 (src (isteps False (compose sigma_a sigma_b))))
   \<and> input_operator False 658 (compose sigma_b sigma_a)
       = Inr (selection_matrix 658 (src (isteps False (compose sigma_b sigma_a))))
   \<and> mat_mul (selection_matrix 658 (src (isteps False sigma_a))) (selection_matrix 658 (src (isteps False sigma_b)))
       \<noteq> selection_matrix 658 (src (isteps False (compose sigma_a sigma_b)))
   \<and> mat_mul (selection_matrix 658 (src (isteps False sigma_a))) (selection_matrix 658 (src (isteps False sigma_b)))
       \<noteq> selection_matrix 658 (src (isteps False (compose sigma_b sigma_a)))"
proof -
  note ops = input_operator_selection[where sad = False and n = 658]
  have la: "length sigma_a = 5" and lb: "length sigma_b = 5"
    and lab: "length (compose sigma_a sigma_b) = 5" and lba: "length (compose sigma_b sigma_a) = 5"
    by (simp_all add: sigma_a_def sigma_b_def compose_def)
  have fa: "\<And>r. r < 658 \<Longrightarrow> src (isteps False sigma_a) r < 658"
    by (rule src_bounds(1)[OF isteps_good[OF sigma_ab_ok(1)]]) simp_all
  have prod: "mat_mul (selection_matrix 658 (src (isteps False sigma_a))) (selection_matrix 658 (src (isteps False sigma_b)))
      = selection_matrix 658 (\<lambda>r. src (isteps False sigma_b) (src (isteps False sigma_a) r))"
    by (rule mat_mul_selection) (simp_all add: fa)
  have a261: "src (isteps False sigma_a) 261 = 262"
    using src_single_261[of 0 sigma_a False] la by (simp add: sigma_a_def)
  have b262: "src (isteps False sigma_b) 262 = 263"
    using src_single_261[of 1 sigma_b False] lb by (simp add: sigma_b_def)
  have ab261: "src (isteps False (compose sigma_a sigma_b)) 261 = 262"
    using src_single_261[of 0 "compose sigma_a sigma_b" False] lab
    by (simp add: sigma_a_def sigma_b_def compose_def upt_rec)
  have a0: "src (isteps False sigma_a) 0 = 5"
  proof -
    have "hand_closed (card_closed sigma_a) ! 0 = 5" by code_simp
    then show ?thesis using src_hand[of 0 False sigma_a] by simp
  qed
  have b5: "src (isteps False sigma_b) 5 = 10"
  proof -
    have "hand_closed (card_closed sigma_b) ! 5 = 10" by code_simp
    then show ?thesis using src_hand[of 5 False sigma_b] by simp
  qed
  have ba0: "src (isteps False (compose sigma_b sigma_a)) 0 = 5"
  proof -
    have "hand_closed (card_closed (compose sigma_b sigma_a)) ! 0 = 5" by code_simp
    then show ?thesis using src_hand[of 0 False "compose sigma_b sigma_a"] by simp
  qed
  have n1: "selection_matrix 658 (\<lambda>r. src (isteps False sigma_b) (src (isteps False sigma_a) r))
      \<noteq> selection_matrix 658 (src (isteps False (compose sigma_a sigma_b)))"
    by (rule selection_matrix_neq[where r = 261]) (simp_all add: a261 b262 ab261)
  have n2: "selection_matrix 658 (\<lambda>r. src (isteps False sigma_b) (src (isteps False sigma_a) r))
      \<noteq> selection_matrix 658 (src (isteps False (compose sigma_b sigma_a)))"
    by (rule selection_matrix_neq[where r = 0]) (simp_all add: a0 b5 ba0)
  show ?thesis
    using ops[OF sigma_ab_ok(1)] ops[OF sigma_ab_ok(2)] ops[OF sigma_ab_ok(3)] ops[OF sigma_ab_ok(4)]
      n1 n2 by (simp add: prod)
qed

section \<open>Rows of concatenations\<close>

lemma length_concat_const:
  assumes "\<And>i. i < n \<Longrightarrow> length (f i) = c"
  shows "length (concat (map f [0..<n])) = n * c"
  using assms by (induction n) simp_all

lemma concat_upt_split:
  assumes "i < n"
  shows "concat (map f [0..<n]) = concat (map f [0..<i]) @ f i @ concat (map f [Suc i..<n])"
proof -
  have "[0..<n] = [0..<i] @ i # [Suc i..<n]"
    using assms by (metis le0 upt_add_eq_append upt_conv_Cons le_add_diff_inverse less_imp_le_nat)
  then show ?thesis by simp
qed

lemma row_concat_map:
  assumes len: "\<And>i. i < n \<Longrightarrow> length (f i) = c" and i: "i < n"
  shows "row c (concat (map f [0..<n])) i = f i"
proof -
  have l: "length (concat (map f [0..<i])) = i * c"
    using len i by (intro length_concat_const) simp
  show ?thesis
    unfolding row_def concat_upt_split[OF i] using l len[OF i] by simp
qed

section \<open>An empty slot mask adds nothing to the loss\<close>

lemma is_fin_iff: "is_fin x \<longleftrightarrow> (\<exists>a. x = Fin a)"
  by (cases x) simp_all

lemma fsum_fin: "list_all is_fin xs \<Longrightarrow> is_fin (fsum xs)"
proof (induction xs)
  case Nil
  show ?case by simp
next
  case (Cons x xs)
  then have "is_fin x" "is_fin (fsum xs)" by simp_all
  then obtain a b where "x = Fin a" "fsum xs = Fin b" unfolding is_fin_iff by blast
  then show ?case by simp
qed

lemma fsum_zeros: "(\<And>x. x \<in> set xs \<Longrightarrow> x = Fin 0) \<Longrightarrow> fsum xs = Fin 0"
proof (induction xs)
  case Nil
  show ?case by simp
next
  case (Cons x xs)
  have "x = Fin 0" by (rule Cons.prems) simp
  moreover have "fsum xs = Fin 0" by (rule Cons.IH, rule Cons.prems) simp
  ultimately show ?case by simp
qed

lemma map2_fmul_zero:
  assumes p: "list_all is_fin p" and m: "\<And>x. x \<in> set m \<Longrightarrow> x = Fin 0" and x: "x \<in> set (map2 fmul p m)"
  shows "x = Fin 0"
proof -
  from x obtain a b where ab: "(a, b) \<in> set (zip p m)" "x = fmul a b" by auto
  then have ap: "a \<in> set p" and bm: "b \<in> set m"
    by (auto dest: set_zip_leftD set_zip_rightD)
  have "is_fin a" using p ap by (simp add: list_all_iff)
  then obtain r where "a = Fin r" unfolding is_fin_iff by blast
  moreover have "b = Fin 0" using bm by (rule m)
  ultimately show ?thesis using ab by simp
qed

text \<open>
  A hand whose mask is zero, with finite summands: the quotient is \<open>0 / 10\<^sup>-\<^sup>6\<close>.  Without the
  clamp it would be \<open>0 / 0\<close>, which is NaN.
\<close>

lemma xent_row_zero_mask:
  assumes p: "list_all is_fin p" and m: "\<And>x. x \<in> set m \<Longrightarrow> x = Fin 0"
  shows "xent_row p m = Fin 0"
    and "clamp_min (1 / 1000000) (fsum m) = Fin (1 / 1000000)"
    and "fdiv (fneg (fsum (map2 fmul p m))) (fsum m) = NaN"
proof -
  have m0: "fsum m = Fin 0" using m by (rule fsum_zeros)
  have s0: "fsum (map2 fmul p m) = Fin 0"
    by (rule fsum_zeros) (rule map2_fmul_zero[OF p m])
  show "xent_row p m = Fin 0" by (simp add: xent_row_def m0 s0)
  show "clamp_min (1 / 1000000) (fsum m) = Fin (1 / 1000000)" by (simp add: m0)
  show "fdiv (fneg (fsum (map2 fmul p m))) (fsum m) = NaN" by (simp add: m0 s0)
qed

lemma mean_row_empty: "mean_row [] = NaN"
  by (simp add: mean_row_def)

lemma mean_row_zeros:
  assumes "xs \<noteq> []" "\<And>x. x \<in> set xs \<Longrightarrow> x = Fin 0"
  shows "mean_row xs = Fin 0"
  using assms(1) by (simp add: mean_row_def fsum_zeros[OF assms(2)])

lemma length_log_softmax_row [simp]: "length (log_softmax_row xs) = length xs"
  by (simp add: log_softmax_row_def)

lemma log_softmax_row_fin:
  assumes "list_all is_fin xs"
  shows "list_all is_fin (log_softmax_row xs)"
proof (cases "xs = []")
  case True
  then show ?thesis by (simp add: log_softmax_row_def)
next
  case False
  have "\<not> no_softmax xs"
    using assms False by (cases xs) (auto simp: no_softmax_def list_all_iff list_ex_iff is_fin_iff)
  then show ?thesis using assms by (auto simp: log_softmax_row_def list_all_iff is_fin_iff)
qed

lemma row_all:
  assumes "\<And>j. j < d \<Longrightarrow> P (xs ! (n * d + j))" "n * d + d \<le> length xs" "x \<in> set (row d xs n)"
  shows "P x"
proof -
  from assms(3) obtain j where j: "j < length (row d xs n)" "x = row d xs n ! j"
    by (auto simp: in_set_conv_nth)
  then have "j < d" using assms(2) by (simp add: length_row)
  then show ?thesis using assms(1,2) j by (simp add: row_nth)
qed

lemma row_map2: "row d (map2 f xs ys) n = map2 f (row d xs n) (row d ys n)"
  by (simp add: row_def take_map drop_map take_zip drop_zip)

lemma row_bound:
  fixes n N d :: nat
  assumes "n < N"
  shows "n * d + d \<le> N * d"
proof -
  have "Suc n * d \<le> N * d" using assms by (intro mult_le_mono1) simp
  then show ?thesis by simp
qed

text \<open>One entry of the loss before the mean over the players: hand \<open>r\<close> of \<open>N\<close>.\<close>

lemma xent_entry_zero:
  assumes ly: "length yv = N * K * C" and lt: "length tv = N * K * C" and lm: "length mv = N * K"
      and r: "r < N"
      and fy: "\<And>j. j < K * C \<Longrightarrow> is_fin (yv ! (r * (K * C) + j))"
      and ft: "\<And>j. j < K * C \<Longrightarrow> is_fin (tv ! (r * (K * C) + j))"
      and z: "\<And>j. j < K \<Longrightarrow> mv ! (r * K + j) = Fin 0"
  defines "lq \<equiv> concat (map (\<lambda>i. log_softmax_row (row C yv i)) [0..<N * K])"
  defines "pv \<equiv> map (\<lambda>i. fsum (row C (map2 fmul tv lq) i)) [0..<N * K]"
  shows "xent_row (row K pv r) (row K mv r) = Fin 0"
proof (rule xent_row_zero_mask(1))
  have bm: "r * K + K \<le> length mv" unfolding lm by (rule row_bound[OF r])
  show "\<And>x. x \<in> set (row K mv r) \<Longrightarrow> x = Fin 0"
    using z bm by (rule row_all[where P = "\<lambda>y. y = Fin 0"])
  have lp: "length pv = N * K" by (simp add: pv_def)
  have bp: "r * K + K \<le> length pv" unfolding lp by (rule row_bound[OF r])
  have fin: "\<And>j. j < K \<Longrightarrow> is_fin (pv ! (r * K + j))"
  proof -
    fix j assume j: "j < K"
    define i where "i = r * K + j"
    have i: "i < N * K" using bp j lp by (simp add: i_def)
    have bi: "i * C + C \<le> N * K * C" by (rule row_bound[OF i])
    have lrow: "\<And>i. i < N * K \<Longrightarrow> length (log_softmax_row (row C yv i)) = C"
    proof -
      fix i' assume "i' < N * K"
      then have "i' * C + C \<le> length yv" unfolding ly by (rule row_bound)
      then show "length (log_softmax_row (row C yv i')) = C" by (simp add: length_row)
    qed
    have rl: "row C lq i = log_softmax_row (row C yv i)"
      unfolding lq_def using lrow i by (rule row_concat_map)
    have "Suc j * C \<le> K * C" using j by (intro mult_le_mono1) simp
    then have jc: "j * C + C \<le> K * C" by simp
    have eq: "\<And>c. i * C + c = r * (K * C) + (j * C + c)"
      by (simp add: i_def add_mult_distrib mult.assoc)
    have lt': "\<And>c. c < C \<Longrightarrow> j * C + c < K * C" using jc by simp
    have fyc: "\<And>c. c < C \<Longrightarrow> is_fin (yv ! (i * C + c))"
      unfolding eq by (rule fy, rule lt')
    have ftc: "\<And>c. c < C \<Longrightarrow> is_fin (tv ! (i * C + c))"
      unfolding eq by (rule ft, rule lt')
    have by': "i * C + C \<le> length yv" using bi by (simp add: ly)
    have bt': "i * C + C \<le> length tv" using bi by (simp add: lt)
    have fyr: "list_all is_fin (row C yv i)"
      unfolding list_all_iff
    proof
      fix x assume "x \<in> set (row C yv i)"
      with fyc by' show "is_fin x" by (rule row_all[where P = is_fin])
    qed
    have ftr: "list_all is_fin (row C tv i)"
      unfolding list_all_iff
    proof
      fix x assume "x \<in> set (row C tv i)"
      with ftc bt' show "is_fin x" by (rule row_all[where P = is_fin])
    qed
    have flq: "list_all is_fin (row C lq i)" unfolding rl using fyr by (rule log_softmax_row_fin)
    have "list_all is_fin (map2 fmul (row C tv i) (row C lq i))"
      unfolding list_all_iff
    proof
      fix x assume "x \<in> set (map2 fmul (row C tv i) (row C lq i))"
      then obtain a b where ab: "(a, b) \<in> set (zip (row C tv i) (row C lq i))" "x = fmul a b"
        by auto
      then have "a \<in> set (row C tv i)" "b \<in> set (row C lq i)"
        by (auto dest: set_zip_leftD set_zip_rightD)
      then have "is_fin a" "is_fin b" using ftr flq by (simp_all add: list_all_iff)
      then obtain u v where "a = Fin u" "b = Fin v" unfolding is_fin_iff by blast
      then show "is_fin x" using ab by simp
    qed
    then have "is_fin (fsum (row C (map2 fmul tv lq) i))"
      unfolding row_map2 by (rule fsum_fin)
    then show "is_fin (pv ! (r * K + j))" using i by (simp add: pv_def i_def)
  qed
  show "list_all is_fin (row K pv r)"
    unfolding list_all_iff
  proof
    fix x assume "x \<in> set (row K pv r)"
    with fin bp show "is_fin x" by (rule row_all[where P = is_fin])
  qed
qed


lemma cross_entropy_players:
  assumes net: "net lstm_o = Inr y"
      and ly: "length (vals y) = S * B * P * K * C"
      and st: "sizes target_p = [S, B, P, K, C]"
      and sm: "sizes hand_slot_mask = [S, B, P, K]"
      and sl: "sizes seq_len = [B]"
  defines "lq \<equiv> concat (map (\<lambda>i. log_softmax_row (row C (vals y) i)) [0..<S * B * P * K])"
  defines "pv \<equiv> map (\<lambda>i. fsum (row C (map2 fmul (vals target_p) lq) i)) [0..<S * B * P * K]"
  defines "xv \<equiv> map (\<lambda>r. xent_row (row K pv r) (row K (vals hand_slot_mask) r)) [0..<S * B * P]"
  shows "\<exists>xent avg_xent q.
           cross_entropy net lstm_o target_p hand_slot_mask seq_len
           = Inr (xent, avg_xent, q, \<lparr>sizes = [S, B], vals = map (\<lambda>n. mean_row (row P xv n)) [0..<S * B]\<rparr>)"
proof -
  have v: "view y (sizes target_p) = Inr \<lparr>sizes = sizes target_p, vals = vals y\<rparr>"
    by (simp add: view_def ly st mult.assoc)
  have p4: "S * (B * (P * K)) = S * B * P * K" "S * (B * P) = S * B * P" by (simp_all add: mult.assoc)
  show ?thesis
    unfolding cross_entropy_def net ebind_Inr v
    by (simp add: Let_def map_last_def reduce_last_def ftimes_def st sm sl last_dim_def dim_def
        sum0_def p4 lq_def pv_def xv_def)
qed

lemma cross_entropy_flat:
  assumes net: "net lstm_o = Inr y"
      and ly: "length (vals y) = S * B * K * C"
      and st: "sizes target_p = [S, B, K, C]"
      and sm: "sizes hand_slot_mask = [S, B, K]"
      and sl: "sizes seq_len = [B]"
  defines "lq \<equiv> concat (map (\<lambda>i. log_softmax_row (row C (vals y) i)) [0..<S * B * K])"
  defines "pv \<equiv> map (\<lambda>i. fsum (row C (map2 fmul (vals target_p) lq) i)) [0..<S * B * K]"
  defines "xv \<equiv> map (\<lambda>r. xent_row (row K pv r) (row K (vals hand_slot_mask) r)) [0..<S * B]"
  shows "\<exists>xent avg_xent q.
           cross_entropy net lstm_o target_p hand_slot_mask seq_len
           = Inr (xent, avg_xent, q, \<lparr>sizes = [S, B], vals = xv\<rparr>)"
proof -
  have v: "view y (sizes target_p) = Inr \<lparr>sizes = sizes target_p, vals = vals y\<rparr>"
    by (simp add: view_def ly st mult.assoc)
  have p4: "S * (B * K) = S * B * K" by (simp_all add: mult.assoc)
  show ?thesis
    unfolding cross_entropy_def net ebind_Inr v
    by (simp add: Let_def map_last_def reduce_last_def ftimes_def st sm sl last_dim_def dim_def
        sum0_def p4 lq_def pv_def xv_def)
qed

lemma sample_index:
  fixes n p P D j :: nat
  assumes "p < P" "j < D"
  shows "(n * P + p) * D + j = n * (P * D) + (p * D + j)" "p * D + j < P * D"
proof -
  show "(n * P + p) * D + j = n * (P * D) + (p * D + j)"
    by (simp add: add_mult_distrib mult.assoc)
  have "Suc p * D \<le> P * D" using assms(1) by (intro mult_le_mono1) simp
  then show "p * D + j < P * D" using assms(2) by simp
qed


lemma ex_logits:
  "finite_net (Linear ex_pred) ex_lstm_o = Inr \<lparr>sizes = [1, 1, 2], vals = [Fin 0, Fin 0]\<rparr>"
  by (simp add: finite_net_def Linear_def linear_row_def dot_def row_def ex_pred_def ex_lstm_o_def upt_rec)


section \<open>The constant 80\<close>

lemma length_vec_mat [simp]: "length (vec_mat x M) = ncols M"
  by (simp add: vec_mat_def)

lemma matmul_mat_cases:
  "matmul_mat t M = Inl ShapeError
   \<or> (\<exists>u. matmul_mat t M = Inr u \<and> sizes u = butlast (sizes t) @ [ncols M]
          \<and> length (vals u) = prod_list (butlast (sizes t)) * ncols M)"
  by (simp add: matmul_mat_def length_concat_const)

lemma expand_80_fails:
  assumes wf: "wf_tensor s" and ne: "vals s \<noteq> []" and d: "sizes s = [S, B, W]" and S: "S \<noteq> 80"
      and pos: "0 < num" "0 < width" and cols: "ncols perms = num * width"
  shows "expand_80 perms num width s = Inl ShapeError"
proof -
  have "length (vals s) = S * B * W" using wf d by (simp add: wf_tensor_def)
  moreover have "0 < length (vals s)" using ne by simp
  ultimately have sb: "0 < S * B * W" by simp
  then have B: "0 < B" by simp
  have sz: "size_at s 1 = Inr B" by (simp add: size_at_def dim_def d)
  from matmul_mat_cases[of s perms] show ?thesis
  proof
    assume "matmul_mat s perms = Inl ShapeError"
    then show ?thesis by (simp add: expand_80_def size_at_def dim_def d)
  next
    assume "\<exists>u. matmul_mat s perms = Inr u \<and> sizes u = butlast (sizes s) @ [ncols perms]
          \<and> length (vals u) = prod_list (butlast (sizes s)) * ncols perms"
    then obtain u where u: "matmul_mat s perms = Inr u"
      and lu: "length (vals u) = S * B * (num * width)" by (auto simp: d cols)
    have "80 * (B * num * width) \<noteq> S * (B * num * width)" using S B pos by simp
    then have "prod_list [80, B * num, width] \<noteq> length (vals u)"
      by (simp add: lu mult.assoc mult.left_commute)
    then show ?thesis by (simp add: expand_80_def size_at_def dim_def d u reshape_def)
  qed
qed

lemma expand_act_succeeds:
  assumes wf: "wf_tensor s" and d: "sizes s = [B, W]" and W: "W = length perms"
      and cols: "ncols perms = num * width"
  shows "\<exists>t. expand_act perms num width s = Inr t \<and> sizes t = [B * num, width]"
proof -
  have sz: "size_at s 0 = Inr B" by (simp add: size_at_def dim_def d)
  from matmul_mat_cases[of s perms] obtain u where u: "matmul_mat s perms = Inr u"
      and lu: "length (vals u) = B * (num * width)"
    using d W cols by (auto simp: matmul_mat_def length_concat_const)
  show ?thesis by (simp add: expand_act_def size_at_def dim_def d u reshape_def lu mult.assoc)
qed

text \<open>
  C8.  \<open>priv_s\<close> is a non-empty tensor that is not a sequence of exactly 80 steps (a
  sequence of another length, or the two-dimensional one-step input that the entry
  assertion admits); the buffers of the two networks have the widths the constructors
  give them.  Then \<open>forward\<close> of \<open>EquivariantLSTMNet\<close> and of \<open>EquivariantPublicLSTMNet\<close>
  raises, at \<open>reshape(80, ...)\<close> at the latest.  In \<open>act\<close> the same two lines carry the
  batch size in the place of 80 and go through for every batch \<open>s\<close>.
\<close>

theorem equivariant_forward_needs_80_steps:
  assumes wf: "wf_tensor priv_s" and ne: "vals priv_s \<noteq> []"
      and not80: "\<not> (dim priv_s = 3 \<and> sizes priv_s ! 0 = 80)"
      and m: "0 < e_num_symmetries m" "0 < e_priv_in_dim m"
             "ncols (e_input_perms m) = e_num_symmetries m * e_priv_in_dim m"
      and m': "0 < ep_num_symmetries m'" "0 < ep_priv_in_dim m'"
             "ncols (ep_priv_input_perms m') = ep_num_symmetries m' * ep_priv_in_dim m'"
      and s: "wf_tensor s" "dim s = 2" "sizes s ! 1 = length (e_input_perms m)"
  shows "(EquivariantLSTMNet_forward m priv_s publ_s legal_move action hid = Inl ShapeError
          \<or> EquivariantLSTMNet_forward m priv_s publ_s legal_move action hid = Inl AssertEntryDim)
       \<and> (EquivariantPublicLSTMNet_forward m' priv_s publ_s legal_move action hid = Inl ShapeError
          \<or> EquivariantPublicLSTMNet_forward m' priv_s publ_s legal_move action hid = Inl AssertEntryDim)
       \<and> (\<exists>t. expand_act (e_input_perms m) (e_num_symmetries m) (e_priv_in_dim m) s = Inr t
              \<and> sizes t = [sizes s ! 0 * e_num_symmetries m, e_priv_in_dim m])"
proof -
  have act: "\<exists>t. expand_act (e_input_perms m) (e_num_symmetries m) (e_priv_in_dim m) s = Inr t
              \<and> sizes t = [sizes s ! 0 * e_num_symmetries m, e_priv_in_dim m]"
  proof -
    from s(2) obtain B W where d: "sizes s = [B, W]"
      by (auto simp: dim_def numeral_2_eq_2 length_Suc_conv)
    show ?thesis using expand_act_succeeds[OF s(1) d _ m(3)] s(3) d by simp
  qed
  consider (bad) "dim priv_s \<noteq> 3" "dim priv_s \<noteq> 2" | (two) "dim priv_s = 2"
    | (three) "dim priv_s = 3" by blast
  then have "(EquivariantLSTMNet_forward m priv_s publ_s legal_move action hid = Inl ShapeError
          \<or> EquivariantLSTMNet_forward m priv_s publ_s legal_move action hid = Inl AssertEntryDim)
       \<and> (EquivariantPublicLSTMNet_forward m' priv_s publ_s legal_move action hid = Inl ShapeError
          \<or> EquivariantPublicLSTMNet_forward m' priv_s publ_s legal_move action hid = Inl AssertEntryDim)"
  proof cases
    case bad
    then show ?thesis
      by (simp add: EquivariantLSTMNet_forward_def EquivariantPublicLSTMNet_forward_def)
  next
    case two
    then obtain B W where d: "sizes priv_s = [B, W]"
      by (auto simp: dim_def numeral_2_eq_2 length_Suc_conv)
    have d1: "sizes (unsqueeze0 priv_s) = [1, B, W]" by (simp add: unsqueeze0_def d)
    have w1: "wf_tensor (unsqueeze0 priv_s)" using wf by (simp add: wf_tensor_def unsqueeze0_def)
    have n1: "vals (unsqueeze0 priv_s) \<noteq> []" using ne by (simp add: unsqueeze0_def)
    have e: "expand_80 (e_input_perms m) (e_num_symmetries m) (e_priv_in_dim m) (unsqueeze0 priv_s) = Inl ShapeError"
      by (rule expand_80_fails[OF w1 n1 d1 _ m]) simp
    have e': "expand_80 (ep_priv_input_perms m') (ep_num_symmetries m') (ep_priv_in_dim m') (unsqueeze0 priv_s) = Inl ShapeError"
      by (rule expand_80_fails[OF w1 n1 d1 _ m']) simp
    show ?thesis
      using two e e'
      by (simp add: EquivariantLSTMNet_forward_def EquivariantPublicLSTMNet_forward_def Let_def)
  next
    case three
    then obtain S B W where d: "sizes priv_s = [S, B, W]"
      by (auto simp: dim_def elim!: length3E)
    with not80 three have S: "S \<noteq> 80" by simp
    have e: "expand_80 (e_input_perms m) (e_num_symmetries m) (e_priv_in_dim m) priv_s = Inl ShapeError"
      by (rule expand_80_fails[OF wf ne d S m])
    have e': "expand_80 (ep_priv_input_perms m') (ep_num_symmetries m') (ep_priv_in_dim m') priv_s = Inl ShapeError"
      by (rule expand_80_fails[OF wf ne d S m'])
    show ?thesis
      using three e e'
      by (simp add: EquivariantLSTMNet_forward_def EquivariantPublicLSTMNet_forward_def Let_def)
  qed
  with act show ?thesis by blast
qed

lemma ex_expand_act:
  "expand_act (e_input_perms ex_enet) (e_num_symmetries ex_enet) (e_priv_in_dim ex_enet) ex_priv1
   = Inr \<lparr>sizes = [1, 1], vals = [3]\<rparr>"
  by (simp add: expand_act_def size_at_def dim_def matmul_mat_def vec_mat_def ncols_def row_def
      reshape_def ex_enet_def ex_priv1_def)

theorem equivariant_forward_needs_80_steps_witness:
  "wf_tensor ex_priv1 \<and> vals ex_priv1 \<noteq> [] \<and> dim ex_priv1 = 2
   \<and> ncols (e_input_perms ex_enet) = e_num_symmetries ex_enet * e_priv_in_dim ex_enet
   \<and> ncols (ep_priv_input_perms ex_pnet) = ep_num_symmetries ex_pnet * ep_priv_in_dim ex_pnet
   \<and> EquivariantLSTMNet_forward ex_enet ex_priv1 ex_publ ex_legal1 ex_action1 [] = Inl ShapeError
   \<and> EquivariantPublicLSTMNet_forward ex_pnet ex_priv1 ex_priv1 ex_legal1 ex_action1 [] = Inl ShapeError
   \<and> expand_act (e_input_perms ex_enet) (e_num_symmetries ex_enet) (e_priv_in_dim ex_enet) ex_priv1
       = Inr \<lparr>sizes = [1, 1], vals = [3]\<rparr>"
proof -
  have wf: "wf_tensor ex_priv1" and ne: "vals ex_priv1 \<noteq> []" and d: "dim ex_priv1 = 2"
    by (simp_all add: wf_tensor_def ex_priv1_def dim_def)
  have n80: "\<not> (dim ex_priv1 = 3 \<and> sizes ex_priv1 ! 0 = 80)" by (simp add: d)
  have m: "0 < e_num_symmetries ex_enet" "0 < e_priv_in_dim ex_enet"
    "ncols (e_input_perms ex_enet) = e_num_symmetries ex_enet * e_priv_in_dim ex_enet"
    by (simp_all add: ex_enet_def ncols_def)
  have m': "0 < ep_num_symmetries ex_pnet" "0 < ep_priv_in_dim ex_pnet"
    "ncols (ep_priv_input_perms ex_pnet) = ep_num_symmetries ex_pnet * ep_priv_in_dim ex_pnet"
    by (simp_all add: ex_pnet_def ncols_def)
  have s: "sizes ex_priv1 ! 1 = length (e_input_perms ex_enet)"
    by (simp add: ex_priv1_def ex_enet_def)
  have a: "dim ex_priv1 \<noteq> 3" by (simp add: d)
  have f1: "EquivariantLSTMNet_forward ex_enet ex_priv1 ex_publ ex_legal1 ex_action1 [] \<noteq> Inl AssertEntryDim"
    and f2: "EquivariantPublicLSTMNet_forward ex_pnet ex_priv1 ex_priv1 ex_legal1 ex_action1 [] \<noteq> Inl AssertEntryDim"
    by (simp_all add: EquivariantLSTMNet_forward_def EquivariantPublicLSTMNet_forward_def d Let_def
        expand_80_def size_at_def dim_def unsqueeze0_def ex_priv1_def matmul_mat_def reshape_def
        ex_enet_def ex_pnet_def vec_mat_def ncols_def)
  from equivariant_forward_needs_80_steps[OF wf ne n80 m m' wf d s,
      of ex_publ ex_legal1 ex_action1 "[]"]
    equivariant_forward_needs_80_steps[OF wf ne n80 m m' wf d s,
      of ex_priv1 ex_legal1 ex_action1 "[]"]
    f1 f2 wf ne d m(3) m'(3) ex_expand_act
  show ?thesis by simp
qed

end
